theory Spec2Isabelle
  imports Complex_Main "HOL-Library.Word"
begin

unbundle bit_operations_syntax

section \<open>Values, errors and list access\<close>

text \<open>
  The exceptions of \<^verbatim>\<open>device.py\<close> (\<^verbatim>\<open>BadConfigParamException\<close>,
  \<^verbatim>\<open>BadAckException\<close>, \<^verbatim>\<open>BadFlushException\<close>) and the built-in
  exceptions its indexing, its string formatting and its division can raise. A function that may raise returns
  \<open>error + 'a\<close>, \<open>Inl\<close> being the raised exception.
\<close>

datatype error =
    BadConfigParamException
  | BadAckException
  | BadFlushException
  | IndexError
  | TypeError
  | ZeroDivisionError

text \<open>An element of a Python \<^verbatim>\<open>bytes\<close> object is an integer in 0..255.\<close>

type_synonym byte = "8 word"

definition bind_err :: "error + 'a \<Rightarrow> ('a \<Rightarrow> error + 'b) \<Rightarrow> error + 'b" where
  "bind_err m k = (case m of Inl e \<Rightarrow> Inl e | Inr x \<Rightarrow> k x)"

text \<open>
  \<^verbatim>\<open>xs[i]\<close> of Python: a negative index counts from the end, and an index outside
  \<^verbatim>\<open>-len(xs) .. len(xs)-1\<close> raises \<^verbatim>\<open>IndexError\<close>.
\<close>

definition getitem :: "'a list \<Rightarrow> int \<Rightarrow> error + 'a" where
  "getitem xs i =
     (if 0 \<le> i \<and> i < int (length xs) then Inr (xs ! nat i)
      else if i < 0 \<and> - int (length xs) \<le> i then Inr (xs ! nat (int (length xs) + i))
      else Inl IndexError)"

text \<open>\<^verbatim>\<open>range(n)\<close>: the integers 0, ..., n-1, none when n is not positive.\<close>

definition py_range :: "int \<Rightarrow> int list" where
  "py_range n = [0..n - 1]"

section \<open>Class constants\<close>

definition MEASUREFRAME_MINLENGTH :: int where
  "MEASUREFRAME_MINLENGTH = 14"

definition POTENTIALVALUE_LENGTH :: int where
  "POTENTIALVALUE_LENGTH = 4"

section \<open>Measurement frame validator\<close>

definition isbit7valueat1 :: "byte \<Rightarrow> bool" where
  "isbit7valueat1 b = (b AND 0x80 = 0x80)"

definition isbit7valueat0 :: "byte \<Rightarrow> bool" where
  "isbit7valueat0 b = (b AND 0x80 = 0x00)"

text \<open>
  \<^verbatim>\<open>_ismeasureframevalid\<close> is a sequence of statements
  \<^verbatim>\<open>if not self._isbit7valueatX(measureframe[k]): return False\<close>. One such statement is
  a pair \<open>(k, X = 1)\<close>, and \<open>checktags\<close> runs a sequence of them in order: the first
  failing test returns \<open>False\<close>, an index out of range raises.
\<close>

fun checktags :: "byte list \<Rightarrow> (int \<times> bool) list \<Rightarrow> error + bool" where
  "checktags measureframe [] = Inr True"
| "checktags measureframe ((k, at1) # rest) =
     (case getitem measureframe k of
        Inl e \<Rightarrow> Inl e
      | Inr b \<Rightarrow>
          if \<not> (if at1 then isbit7valueat1 b else isbit7valueat0 b) then Inr False
          else checktags measureframe rest)"

text \<open>The fourteen tests on bytes 0 to 13, in source order.\<close>

definition header_checks :: "(int \<times> bool) list" where
  "header_checks =
     [(0, True), (1, True),
      (2, True), (3, False),
      (4, True), (5, False),
      (6, True), (7, False), (8, False), (9, False),
      (10, True), (11, False), (12, False), (13, False)]"

text \<open>The eight tests of one iteration \<open>i\<close> of the loop over the channels.\<close>

definition channel_checks :: "int \<Rightarrow> (int \<times> bool) list" where
  "channel_checks i =
     [(MEASUREFRAME_MINLENGTH + i * 4, True),
      (MEASUREFRAME_MINLENGTH + i * 4 + 1, False),
      (MEASUREFRAME_MINLENGTH + i * 4 + 2, False),
      (MEASUREFRAME_MINLENGTH + i * 4 + 3, False),
      (MEASUREFRAME_MINLENGTH + i * 4 + 4, True),
      (MEASUREFRAME_MINLENGTH + i * 4 + 5, False),
      (MEASUREFRAME_MINLENGTH + i * 4 + 6, False),
      (MEASUREFRAME_MINLENGTH + i * 4 + 7, False)]"

fun channels_loop :: "byte list \<Rightarrow> int list \<Rightarrow> error + bool" where
  "channels_loop measureframe [] = Inr True"
| "channels_loop measureframe (i # rest) =
     (case checktags measureframe (channel_checks i) of
        Inl e \<Rightarrow> Inl e
      | Inr ok \<Rightarrow> if \<not> ok then Inr False else channels_loop measureframe rest)"

definition ismeasureframevalid :: "int \<Rightarrow> byte list \<Rightarrow> error + bool" where
  "ismeasureframevalid channels_nb measureframe =
     (if length measureframe = 0 then Inr False
      else if int (length measureframe) \<noteq>
              MEASUREFRAME_MINLENGTH + channels_nb * 2 * POTENTIALVALUE_LENGTH
      then Inr False
      else (case checktags measureframe header_checks of
              Inl e \<Rightarrow> Inl e
            | Inr ok \<Rightarrow>
                if \<not> ok then Inr False
                else channels_loop measureframe (py_range channels_nb)))"

section \<open>Measurement frame decoder\<close>

text \<open>\<^verbatim>\<open>measureframe[k] & 0x7F\<close>, as a Python integer.\<close>

definition low7 :: "byte list \<Rightarrow> int \<Rightarrow> error + int" where
  "low7 measureframe k = bind_err (getitem measureframe k) (\<lambda>b. Inr (uint (b AND 0x7F)))"

text \<open>
  The two-byte expression
  \<^verbatim>\<open>(measureframe[k] & 0x7F) + ((measureframe[k+1] & 0x7F) << 7)\<close>.
\<close>

definition unsigned14 :: "byte list \<Rightarrow> int \<Rightarrow> error + int" where
  "unsigned14 measureframe k =
     bind_err (low7 measureframe k) (\<lambda>b0.
     bind_err (low7 measureframe (k + 1)) (\<lambda>b1.
     Inr (b0 + push_bit 7 b1)))"

text \<open>The four-byte expression, bytes \<open>k\<close> to \<open>k + 3\<close> shifted by 0, 7, 14 and 21.\<close>

definition unsigned28 :: "byte list \<Rightarrow> int \<Rightarrow> error + int" where
  "unsigned28 measureframe k =
     bind_err (low7 measureframe k) (\<lambda>b0.
     bind_err (low7 measureframe (k + 1)) (\<lambda>b1.
     bind_err (low7 measureframe (k + 2)) (\<lambda>b2.
     bind_err (low7 measureframe (k + 3)) (\<lambda>b3.
     Inr (b0 + push_bit 7 b1 + push_bit 14 b2 + push_bit 21 b3)))))"

text \<open>
  \<^verbatim>\<open>if (v > pow(2,27)): v -= pow(2,28)\<close>, the statement that follows each four-byte
  expression.
\<close>

definition signcorrection :: "int \<Rightarrow> int" where
  "signcorrection v = (if v > 2 ^ 27 then v - 2 ^ 28 else v)"

definition signed28 :: "byte list \<Rightarrow> int \<Rightarrow> error + int" where
  "signed28 measureframe k =
     bind_err (unsigned28 measureframe k) (\<lambda>v. Inr (signcorrection v))"

text \<open>
  The loop over the channels of \<^verbatim>\<open>_from_measureframe\<close>: iteration \<open>i\<close> reads the phase
  potential at \<^verbatim>\<open>MEASUREFRAME_MINLENGTH+i*2\<close> and the quadrature potential four bytes
  further, and appends them to the two arrays.
\<close>

fun potentials_loop :: "byte list \<Rightarrow> int list \<Rightarrow> error + (int list \<times> int list)" where
  "potentials_loop measureframe [] = Inr ([], [])"
| "potentials_loop measureframe (i # rest) =
     bind_err (signed28 measureframe (MEASUREFRAME_MINLENGTH + i * 2)) (\<lambda>phasevoltage.
     bind_err (signed28 measureframe (MEASUREFRAME_MINLENGTH + i * 2 + 4)) (\<lambda>quadvoltage.
     bind_err (potentials_loop measureframe rest) (\<lambda>(ps, qs).
     Inr (phasevoltage # ps, quadvoltage # qs))))"

text \<open>The tuple \<^verbatim>\<open>_from_measureframe\<close> returns.\<close>

record rawmeasures =
  result :: bool
  count :: int
  recbatvoltage :: int
  embatvoltage :: int
  phasecurrent :: int
  quadcurrent :: int
  phasepotentialarray :: "int list"
  quadpotentialarray :: "int list"

text \<open>\<^verbatim>\<open>return False, 0, 0, 0, 0, 0, [], []\<close>\<close>

definition nomeasure :: rawmeasures where
  "nomeasure =
     \<lparr>result = False, count = 0, recbatvoltage = 0, embatvoltage = 0,
      phasecurrent = 0, quadcurrent = 0,
      phasepotentialarray = [], quadpotentialarray = []\<rparr>"

definition from_measureframe :: "int \<Rightarrow> byte list \<Rightarrow> error + rawmeasures" where
  "from_measureframe channels_nb measureframe =
     bind_err (ismeasureframevalid channels_nb measureframe) (\<lambda>valid.
     if \<not> valid then Inr nomeasure
     else
       bind_err (unsigned14 measureframe 0) (\<lambda>c.
       bind_err (unsigned14 measureframe 2) (\<lambda>rb.
       bind_err (unsigned14 measureframe 4) (\<lambda>eb.
       bind_err (signed28 measureframe 6) (\<lambda>pc.
       bind_err (signed28 measureframe 10) (\<lambda>qc.
       bind_err (potentials_loop measureframe (py_range channels_nb)) (\<lambda>(ps, qs).
       Inr \<lparr>result = True, count = c, recbatvoltage = rb, embatvoltage = eb,
            phasecurrent = pc, quadcurrent = qc,
            phasepotentialarray = ps, quadpotentialarray = qs\<rparr>)))))))"

section \<open>Configuration encoder\<close>

text \<open>
  A parameter handed to \<^verbatim>\<open>setconfig\<close>: Python is untyped, so a caller can pass an
  integer, a float or any other object. Python floats are modelled as exact reals.
\<close>

datatype pyval = PyInt int | PyFloat real | PyOther

text \<open>
  Modelled from the spec: \<^verbatim>\<open>is_float\<close> is imported from the module \<^verbatim>\<open>utils\<close>,
  which is not part of the sources. The specification asks that the voltage and the
  frequency be real numbers.
\<close>

definition is_float :: "pyval \<Rightarrow> bool" where
  "is_float x = (case x of PyInt _ \<Rightarrow> True | PyFloat _ \<Rightarrow> True | PyOther \<Rightarrow> False)"

text \<open>
  Modelled from the spec: \<^verbatim>\<open>is_integer\<close> is imported from the module \<^verbatim>\<open>utils\<close>,
  which is not part of the sources. The specification asks that the three counts be
  integers.
\<close>

definition is_integer :: "pyval \<Rightarrow> bool" where
  "is_integer x = (case x of PyInt _ \<Rightarrow> True | PyFloat _ \<Rightarrow> False | PyOther \<Rightarrow> False)"

text \<open>The number a value stands for, read only after the type test has passed.\<close>

definition real_of_pyval :: "pyval \<Rightarrow> real" where
  "real_of_pyval x = (case x of PyInt n \<Rightarrow> of_int n | PyFloat r \<Rightarrow> r | PyOther \<Rightarrow> 0)"

definition int_of_pyval :: "pyval \<Rightarrow> int" where
  "int_of_pyval x = (case x of PyInt n \<Rightarrow> n | PyFloat r \<Rightarrow> 0 | PyOther \<Rightarrow> 0)"

definition INJVOLT_MIN :: real where "INJVOLT_MIN = 16.55"
definition INJVOLT_MAX :: real where "INJVOLT_MAX = 196.51"
definition INJFREQ_MIN :: real where "INJFREQ_MIN = 0"
definition INJFREQ_MAX :: real where "INJFREQ_MAX = 62499"
definition CONFIGFRAME_LENGTH :: nat where "CONFIGFRAME_LENGTH = 10"
definition CONFIGRESPFRAME_LENGTH :: nat where "CONFIGRESPFRAME_LENGTH = CONFIGFRAME_LENGTH + 1"
definition UX_MAX :: int where "UX_MAX = 255"
definition FX_MAX :: int where "FX_MAX = 33554431"
definition IX_MAX :: int where "IX_MAX = 127"
definition TX_MAX :: int where "TX_MAX = 16383"

text \<open>
  \<^verbatim>\<open>round(x)\<close> of Python 3 with one argument: the nearest integer, a tie going to the
  even neighbour.
\<close>

definition py_round :: "real \<Rightarrow> int" where
  "py_round x =
     (let n = \<lfloor>x\<rfloor>; d = x - of_int n in
      if d < 1 / 2 then n
      else if 1 / 2 < d then n + 1
      else if even n then n else n + 1)"

text \<open>\<^verbatim>\<open>Ux = round((256*((900/voltage)-0.08-4.5))/50)\<close>\<close>

definition voltage_to_Ux :: "real \<Rightarrow> int" where
  "voltage_to_Ux voltage = py_round ((256 * ((900 / voltage) - 0.08 - 4.5)) / 50)"

text \<open>\<^verbatim>\<open>Fx = round(frequency * ((pow(2, 28))/500000))\<close>\<close>

definition frequency_to_Fx :: "real \<Rightarrow> int" where
  "frequency_to_Fx frequency = py_round (frequency * (2 ^ 28 / 500000))"

text \<open>
  Modelled from the spec: \<^verbatim>\<open>hex_to_bytes\<close> of the module \<^verbatim>\<open>utils\<close> is not part of
  the sources. The encoder prints the ten integers of \<^verbatim>\<open>config_frame\<close> as two hex
  digits each and hands the string to it; the frame of the specification is these ten
  integers as bytes.
\<close>

definition hex_to_bytes :: "int list \<Rightarrow> byte list" where
  "hex_to_bytes config_frame = map word_of_int config_frame"

definition to_configframe ::
  "pyval \<Rightarrow> pyval \<Rightarrow> pyval \<Rightarrow> pyval \<Rightarrow> pyval \<Rightarrow> error + byte list" where
  "to_configframe voltage frequency impuls_nb channels_nb integration_nb =
     (if \<not> is_float voltage then Inl BadConfigParamException
      else if \<not> (real_of_pyval voltage \<le> INJVOLT_MAX \<and> real_of_pyval voltage \<ge> INJVOLT_MIN)
      then Inl BadConfigParamException
      else let Ux = voltage_to_Ux (real_of_pyval voltage) in
      if Ux > UX_MAX then Inl BadConfigParamException
      else if \<not> is_float frequency then Inl BadConfigParamException
      else if \<not> (real_of_pyval frequency \<le> INJFREQ_MAX \<and> real_of_pyval frequency \<ge> INJFREQ_MIN)
      then Inl BadConfigParamException
      else let Fx = frequency_to_Fx (real_of_pyval frequency) in
      if Fx > FX_MAX then Inl BadConfigParamException
      else if \<not> is_integer impuls_nb then Inl BadConfigParamException
      else if \<not> int_of_pyval impuls_nb \<le> IX_MAX then Inl BadConfigParamException
      else if \<not> is_integer channels_nb then Inl BadConfigParamException
      else if \<not> int_of_pyval channels_nb \<le> UX_MAX then Inl BadConfigParamException
      else if \<not> is_integer integration_nb then Inl BadConfigParamException
      else if \<not> int_of_pyval integration_nb \<le> TX_MAX then Inl BadConfigParamException
      else Inr (hex_to_bytes
        [0x81 + push_bit 1 (Ux AND 0x003F),
         drop_bit 6 (Ux AND 0x00C0),
         Fx AND 0x0000007F,
         drop_bit 7 (Fx AND 0x00003F80),
         drop_bit 14 (Fx AND 0x001FC000),
         drop_bit 21 (Fx AND 0x0FE00000),
         int_of_pyval impuls_nb AND 0x7F,
         int_of_pyval channels_nb AND 0x7F,
         int_of_pyval integration_nb AND 0x007F,
         drop_bit 7 (int_of_pyval integration_nb AND 0x3F80)]))"

section \<open>Acknowledgement verifier\<close>

text \<open>
  The loop \<^verbatim>\<open>for l in range(len(configframe))\<close> of \<^verbatim>\<open>_verifconfigack\<close>: the first
  position where the two frames differ returns \<open>False\<close>.
\<close>

fun echo_loop :: "byte list \<Rightarrow> byte list \<Rightarrow> int list \<Rightarrow> error + bool" where
  "echo_loop ackframe configframe [] = Inr True"
| "echo_loop ackframe configframe (l # rest) =
     bind_err (getitem ackframe l) (\<lambda>a.
     bind_err (getitem configframe l) (\<lambda>c.
     if a \<noteq> c then Inr False else echo_loop ackframe configframe rest))"

text \<open>The triple \<open>(ack, run, boardid)\<close> of \<^verbatim>\<open>_verifconfigack\<close>.\<close>

definition verifconfigack :: "byte list \<Rightarrow> byte list \<Rightarrow> error + (bool \<times> int \<times> int)" where
  "verifconfigack ackframe configframe =
     (if length ackframe \<noteq> length configframe + 1 then Inr (False, 0, 0)
      else
        bind_err (echo_loop ackframe configframe (py_range (int (length configframe)))) (\<lambda>same.
        if \<not> same then Inr (False, 0, 0)
        else
          bind_err (getitem ackframe (- 1)) (\<lambda>last.
          Inr (True, uint (last AND 0x01), drop_bit 1 (uint (last AND 0x7E))))))"

section \<open>Device session\<close>

text \<open>The attributes of a \<^verbatim>\<open>ResistESDevice\<close> object, the link apart.\<close>

record session =
  recframe :: "byte list"
  voltage :: real
  frequency :: real
  impuls_nb :: int
  channels_nb :: int
  integration_nb :: int

text \<open>The attributes \<^verbatim>\<open>__init__\<close> sets.\<close>

definition init_session :: session where
  "init_session =
     \<lparr>recframe = [], voltage = 0, frequency = 0, impuls_nb = 0, channels_nb = 0,
      integration_nb = 0\<rparr>"

text \<open>
  \<^verbatim>\<open>setconfig\<close>. The link is outside the program: \<open>flushed\<close> tells whether
  \<^verbatim>\<open>flush\<close> saw the reception buffer of the link drain in time (it raises
  \<^verbatim>\<open>BadFlushException\<close> otherwise), and \<open>ackframe\<close> is what the link returned to
  \<^verbatim>\<open>receive\<close>. The first statement formats the five parameters with
  \<^verbatim>\<open>%f\<close> and \<^verbatim>\<open>%d\<close> for the log, which raises \<^verbatim>\<open>TypeError\<close> on a value
  that is not a number. The result is the value returned or the exception raised, and the
  session afterwards.
\<close>

definition setconfig ::
  "session \<Rightarrow> pyval \<Rightarrow> pyval \<Rightarrow> pyval \<Rightarrow> pyval \<Rightarrow> pyval \<Rightarrow> bool \<Rightarrow> byte list
     \<Rightarrow> (error + bool) \<times> session" where
  "setconfig s v f i c t flushed ackframe =
     (if PyOther \<in> set [v, f, i, c, t] then (Inl TypeError, s)
      else case to_configframe v f i c t of
        Inl e \<Rightarrow> (Inl e, s)
      | Inr configframe \<Rightarrow>
          if \<not> flushed then (Inl BadFlushException, s)
          else
            (case verifconfigack ackframe configframe of
               Inl e \<Rightarrow> (Inl e, s)
             | Inr (ack, run, boardid) \<Rightarrow>
                 if ack then
                   (Inr True,
                    s\<lparr>voltage := real_of_pyval v, frequency := real_of_pyval f,
                      impuls_nb := int_of_pyval i, channels_nb := int_of_pyval c,
                      integration_nb := int_of_pyval t\<rparr>)
                 else (Inl BadAckException, s)))"

text \<open>
  \<^verbatim>\<open>updatereceptionframe\<close>, \<open>bytes\<close> being what the link returned to
  \<^verbatim>\<open>read\<close>: each byte is appended to the reception frame in turn.
\<close>

definition updatereceptionframe :: "byte list \<Rightarrow> session \<Rightarrow> session" where
  "updatereceptionframe bytes s =
     (if length bytes > 0
      then s\<lparr>recframe := foldl (\<lambda>r l. r @ [bytes ! l]) (recframe s) [0..<length bytes]\<rparr>
      else s)"

text \<open>\<^verbatim>\<open>getrawmeasures\<close>: the decoded tuple or the exception, and the session afterwards.\<close>

definition getrawmeasures :: "session \<Rightarrow> (error + rawmeasures) \<times> session" where
  "getrawmeasures s =
     (case from_measureframe (channels_nb s) (recframe s) of
        Inl e \<Rightarrow> (Inl e, s)
      | Inr m \<Rightarrow> (Inr m, if result m = True then s\<lparr>recframe := []\<rparr> else s))"

section \<open>Physical value converter\<close>

text \<open>The instrument constant of the current conversion.\<close>

definition RI :: real where "RI = 110"

text \<open>The conversions of raw codes, Python floats being exact reals.\<close>

definition topotentialrealvalue :: "int \<Rightarrow> real" where
  "topotentialrealvalue potentialcodedvalue = (of_int potentialcodedvalue * 5000) / 2 ^ 28"

definition fromphaseandquadrature :: "real \<Rightarrow> real \<Rightarrow> real" where
  "fromphaseandquadrature phasevalue quadvalue = sqrt (phasevalue ^ 2 + quadvalue ^ 2)"

definition tocurrentrealvalue :: "int \<Rightarrow> real" where
  "tocurrentrealvalue currentcodedvalue = (of_int currentcodedvalue * 5000000) / (RI * 2 ^ 28)"

text \<open>\<^verbatim>\<open>a / b\<close> of Python raises \<^verbatim>\<open>ZeroDivisionError\<close> on a zero divisor.\<close>

definition py_div :: "real \<Rightarrow> real \<Rightarrow> error + real" where
  "py_div a b = (if b = 0 then Inl ZeroDivisionError else Inr (a / b))"

definition toresistivityvalue :: "real \<Rightarrow> real \<Rightarrow> real \<Rightarrow> real \<Rightarrow> error + (real \<times> real)" where
  "toresistivityvalue phasecurrentscalarvalue quadcurrentscalarvalue
       phasepotentialscalarvalue quadpotentialscalarvalue =
     bind_err
       (py_div
          (1000 * ((phasepotentialscalarvalue * phasecurrentscalarvalue)
                   + (quadpotentialscalarvalue * quadcurrentscalarvalue)))
          (phasecurrentscalarvalue ^ 2 + quadcurrentscalarvalue ^ 2))
       (\<lambda>phaseresistivityvalue.
     bind_err
       (py_div
          (1000 * ((quadpotentialscalarvalue * phasecurrentscalarvalue)
                   - (phasepotentialscalarvalue * quadcurrentscalarvalue)))
          (phasecurrentscalarvalue ^ 2 + quadcurrentscalarvalue ^ 2))
       (\<lambda>quadresistivityvalue.
     Inr (phaseresistivityvalue, quadresistivityvalue)))"

text \<open>
  The loop of \<^verbatim>\<open>getallmeasures\<close> over the channels: it converts the two potentials
  of channel \<open>l\<close> and computes the two resistivities, and builds the four arrays. The
  magnitudes it also computes with \<^verbatim>\<open>fromphaseandquadrature\<close> are not returned.
\<close>

fun resistivity_loop ::
  "real \<Rightarrow> real \<Rightarrow> int list \<Rightarrow> int list \<Rightarrow> int list
     \<Rightarrow> error + (real list \<times> real list \<times> real list \<times> real list)" where
  "resistivity_loop pc qc parray qarray [] = Inr ([], [], [], [])"
| "resistivity_loop pc qc parray qarray (l # rest) =
     bind_err (getitem parray l) (\<lambda>pcode.
     bind_err (getitem qarray l) (\<lambda>qcode.
     bind_err (toresistivityvalue pc qc (topotentialrealvalue pcode) (topotentialrealvalue qcode))
       (\<lambda>(phaseresistivity, quadresistivity).
     bind_err (resistivity_loop pc qc parray qarray rest) (\<lambda>(pps, qps, prs, qrs).
     Inr (topotentialrealvalue pcode # pps, topotentialrealvalue qcode # qps,
          phaseresistivity # prs, quadresistivity # qrs)))))"

text \<open>
  \<^verbatim>\<open>getallmeasures\<close>: the tuple of ten values it returns or the exception it raises,
  and the session afterwards.
\<close>

type_synonym allmeasures =
  "bool \<times> int \<times> real \<times> real \<times> real \<times> real \<times> real list \<times> real list \<times> real list \<times> real list"

definition getallmeasures :: "session \<Rightarrow> (error + allmeasures) \<times> session" where
  "getallmeasures s =
     (case getrawmeasures s of
        (Inl e, s') \<Rightarrow> (Inl e, s')
      | (Inr m, s') \<Rightarrow>
          (let recrealbatvoltage = (18.3 * of_int (recbatvoltage m)) / 16383;
               emrealbatvoltage = (18.3 * of_int (embatvoltage m)) / 16383
           in
             if result m then
               (let pc = tocurrentrealvalue (phasecurrent m);
                    qc = tocurrentrealvalue (quadcurrent m)
                in
                  (case resistivity_loop pc qc (phasepotentialarray m) (quadpotentialarray m)
                          (py_range (int (length (phasepotentialarray m)))) of
                     Inl e \<Rightarrow> (Inl e, s')
                   | Inr (pps, qps, prs, qrs) \<Rightarrow>
                       (Inr (True, count m, recrealbatvoltage, emrealbatvoltage, pc, qc,
                             pps, qps, prs, qrs), s')))
             else
               (Inr (False, count m, recrealbatvoltage, emrealbatvoltage, 0, 0, [], [], [], []),
                s')))"

section \<open>Field names\<close>

text \<open>
  \<^verbatim>\<open>COMMONFIELDS_LIST\<close> is a list object held by the class, and
  \<^verbatim>\<open>getallfieldnames\<close> and \<^verbatim>\<open>acquiremeasures\<close> append to lists through
  references. The heap maps a reference to the contents of its list; \<open>next_ref\<close> is the
  first reference not yet in use.
\<close>

type_synonym ref = nat

record pyheap =
  cells :: "ref \<Rightarrow> string list"
  next_ref :: ref

text \<open>A new list object, as \<^verbatim>\<open>[self.DATEFIELD] + self.COMMONFIELDS_LIST\<close> builds one.\<close>

definition alloc :: "string list \<Rightarrow> pyheap \<Rightarrow> ref \<times> pyheap" where
  "alloc xs h = (next_ref h, h\<lparr>cells := (cells h)(next_ref h := xs), next_ref := Suc (next_ref h)\<rparr>)"

text \<open>\<^verbatim>\<open>r.append(x)\<close>\<close>

definition list_append :: "ref \<Rightarrow> string \<Rightarrow> pyheap \<Rightarrow> pyheap" where
  "list_append r x h = h\<lparr>cells := (cells h)(r := cells h r @ [x])\<rparr>"

text \<open>The class attributes: the reference of the shared list, and the lists never modified.\<close>

definition COMMONFIELDS_LIST :: ref where
  "COMMONFIELDS_LIST = 0"

definition DATEFIELD :: string where
  "DATEFIELD = ''date''"

definition POTENTIALFIELDS_LIST :: "string list" where
  "POTENTIALFIELDS_LIST = [''phase potential(mV) (ch%d)'', ''quad. potential(mV) (ch%d)'']"

definition RESISTIVITYFIELDS_LIST :: "string list" where
  "RESISTIVITYFIELDS_LIST =
     [''phase resistivity(kOhm.m) (ch%d)'', ''quad. resistivity(kOhm.m) (ch%d)'']"

text \<open>The heap when the class has been defined.\<close>

definition class_heap :: pyheap where
  "class_heap =
     \<lparr>cells = (\<lambda>r. [])(COMMONFIELDS_LIST :=
        [''count'', ''rec. batt. voltage(V)'', ''em. batt. voltage(V)'', ''phase current(mA)'',
         ''quad. current(mA)'']),
      next_ref = 1\<rparr>"

text \<open>\<^verbatim>\<open>template % i\<close> for a template with one \<^verbatim>\<open>%d\<close>: the decimal digits of \<open>i\<close>.\<close>

fun str_nat :: "nat \<Rightarrow> string" where
  "str_nat n =
     (if n < 10 then [char_of (48 + n)] else str_nat (n div 10) @ [char_of (48 + n mod 10)])"

declare str_nat.simps [simp del]

definition str_int :: "int \<Rightarrow> string" where
  "str_int i = (if i < 0 then CHR ''-'' # str_nat (nat (- i)) else str_nat (nat i))"

fun percent_d :: "string \<Rightarrow> int \<Rightarrow> string" where
  "percent_d [] i = []"
| "percent_d [c] i = [c]"
| "percent_d (c # d # rest) i =
     (if c = CHR ''%'' \<and> d = CHR ''d'' then str_int i @ rest else c # percent_d (d # rest) i)"

text \<open>
  The inner loops \<^verbatim>\<open>for n in range(...): r.append(templates[n] % i)\<close>, \<open>ns\<close> being the
  range.
\<close>

definition append_fields :: "ref \<Rightarrow> string list \<Rightarrow> nat list \<Rightarrow> int \<Rightarrow> pyheap \<Rightarrow> pyheap" where
  "append_fields r templates ns i h =
     foldl (\<lambda>h n. list_append r (percent_d (templates ! n) i) h) h ns"

text \<open>\<^verbatim>\<open>getallfieldnames\<close>: the reference it returns, and the heap afterwards.\<close>

definition getallfieldnames :: "session \<Rightarrow> pyheap \<Rightarrow> ref \<times> pyheap" where
  "getallfieldnames s h =
     (let fieldnames = COMMONFIELDS_LIST in
      (fieldnames,
       foldl (\<lambda>h i.
                append_fields fieldnames RESISTIVITYFIELDS_LIST
                  [0..<length RESISTIVITYFIELDS_LIST] i
                  (append_fields fieldnames POTENTIALFIELDS_LIST
                     [0..<length POTENTIALFIELDS_LIST] i h))
             h (py_range (channels_nb s))))"

text \<open>
  The first statements of \<^verbatim>\<open>acquiremeasures\<close>, which build the header row
  \<^verbatim>\<open>csvline\<close>; its second inner loop also ranges over
  \<^verbatim>\<open>len(self.POTENTIALFIELDS_LIST)\<close>.
\<close>

definition acquiremeasures_header :: "bool \<Rightarrow> session \<Rightarrow> pyheap \<Rightarrow> ref \<times> pyheap" where
  "acquiremeasures_header datetimedisplay s h =
     (let (csvline, h1) =
            (if datetimedisplay = True
             then alloc ([DATEFIELD] @ cells h COMMONFIELDS_LIST) h
             else (COMMONFIELDS_LIST, h))
      in
      (csvline,
       foldl (\<lambda>h n.
                append_fields csvline RESISTIVITYFIELDS_LIST
                  [0..<length POTENTIALFIELDS_LIST] n
                  (append_fields csvline POTENTIALFIELDS_LIST
                     [0..<length POTENTIALFIELDS_LIST] n h))
             h1 (py_range (channels_nb s))))"

text \<open>The body of the loop over the channels, in both functions.\<close>

definition fields_step :: "ref \<Rightarrow> nat list \<Rightarrow> pyheap \<Rightarrow> int \<Rightarrow> pyheap" where
  "fields_step r ns h i =
     append_fields r RESISTIVITYFIELDS_LIST ns i (append_fields r POTENTIALFIELDS_LIST ns i h)"

section \<open>Tag bits of a frame\<close>

text \<open>
  Bit 7 of a byte is its tag. A four-byte field at offset \<open>k\<close> is tagged when its first
  byte has tag 1 and its three other bytes tag 0.
\<close>

definition field_tags :: "byte list \<Rightarrow> nat \<Rightarrow> bool" where
  "field_tags f k =
     (bit (f ! k) 7 \<and> \<not> bit (f ! (k + 1)) 7 \<and> \<not> bit (f ! (k + 2)) 7 \<and> \<not> bit (f ! (k + 3)) 7)"

text \<open>
  The tags of the first fourteen bytes as the source tests them and as its layout comment
  gives them (byte 1 with tag 1).
\<close>

definition header_tags :: "byte list \<Rightarrow> bool" where
  "header_tags f =
     ((\<forall>k \<in> {0, 1, 2, 4, 6, 10}. bit (f ! k) 7) \<and>
      (\<forall>k \<in> {3, 5, 7, 8, 9, 11, 12, 13}. \<not> bit (f ! k) 7))"

text \<open>
  The tags of the channel blocks in the layout of the specification: channel \<open>i\<close> owns
  the eight bytes from \<open>14 + 8 i\<close>, two four-byte fields.
\<close>

definition channel_tags :: "nat \<Rightarrow> byte list \<Rightarrow> bool" where
  "channel_tags c f = (\<forall>i < c. field_tags f (14 + 8 * i) \<and> field_tags f (14 + 8 * i + 4))"

text \<open>
  The tags of the first fourteen bytes in the words of the specification: bytes 0, 2, 4, 6
  and 10 with tag 1, bytes 1, 3, 5, 7, 8, 9, 11, 12 and 13 with tag 0.
\<close>

definition claimed_header_tags :: "byte list \<Rightarrow> bool" where
  "claimed_header_tags f =
     ((\<forall>k \<in> {0, 2, 4, 6, 10}. bit (f ! k) 7) \<and>
      (\<forall>k \<in> {1, 3, 5, 7, 8, 9, 11, 12, 13}. \<not> bit (f ! k) 7))"

section \<open>Frames and sessions used as examples\<close>

text \<open>A frame of fourteen bytes tagged as the specification says, byte 1 with tag 0.\<close>

definition frame14 :: "byte list" where
  "frame14 = [0x80, 0x00, 0x80, 0x00, 0x80, 0x00, 0x80, 0x00, 0x00, 0x00, 0x80, 0x00, 0x00, 0x00]"

text \<open>A frame of one channel, tagged as the source tests it.\<close>

definition frame22 :: "byte list" where
  "frame22 =
     [0x80, 0x80, 0x80, 0x00, 0x80, 0x00, 0x80, 0x00, 0x00, 0x00, 0x80, 0x00, 0x00, 0x00,
      0x80, 0x00, 0x00, 0x00, 0x80, 0x00, 0x00, 0x00]"

text \<open>
  A frame of channel count 0 whose phase current field (bytes 6 to 9) holds the raw
  pattern \<open>2 ^ 27\<close>.
\<close>

definition frame_2p27 :: "byte list" where
  "frame_2p27 = [0x80, 0x80, 0x80, 0x00, 0x80, 0x00, 0x80, 0x00, 0x00, 0x40, 0x80, 0x00, 0x00, 0x00]"

text \<open>
  A valid frame of two channels: the four potential fields at offsets 14, 18, 22 and 26
  hold 1, 2, 3 and 4.
\<close>

definition frame30 :: "byte list" where
  "frame30 =
     [0x80, 0x80, 0x80, 0x00, 0x80, 0x00, 0x80, 0x00, 0x00, 0x00, 0x80, 0x00, 0x00, 0x00,
      0x81, 0x00, 0x00, 0x00, 0x82, 0x00, 0x00, 0x00,
      0x83, 0x00, 0x00, 0x00, 0x84, 0x00, 0x00, 0x00]"

text \<open>A session that holds the one-channel frame in its reception buffer.\<close>

definition session22 :: session where
  "session22 = init_session\<lparr>recframe := frame22, channels_nb := 1\<rparr>"

text \<open>The frame for 20 V, 1 kHz, and 1 for each of the three counts.\<close>

definition configframe20 :: "byte list" where
  "configframe20 = [0x9F, 3, 25, 4, 0, 0, 1, 1, 1, 0]"

text \<open>A session configured for two channels.\<close>

definition session2 :: session where
  "session2 = init_session\<lparr>channels_nb := 2\<rparr>"

section \<open>What the validator computes\<close>

lemma x80: "(0x80::byte) = 2 ^ 7" by simp

lemma bit7_80: "bit (0x80::byte) n \<longleftrightarrow> n = 7"
  unfolding x80 by (simp only: bit_exp_iff) (auto simp add: possible_bit_def)

lemma bit7_and: "bit (b AND (0x80::byte)) n \<longleftrightarrow> n = 7 \<and> bit b 7"
  by (simp only: bit_and_iff bit7_80) blast

lemma isbit7valueat1_iff: "isbit7valueat1 b \<longleftrightarrow> bit b 7"
proof
  assume "isbit7valueat1 b"
  then have "bit (b AND 0x80) 7 = bit (0x80::byte) 7"
    by (simp only: isbit7valueat1_def)
  then show "bit b 7" by (simp only: bit7_and bit7_80) simp
next
  assume h: "bit b 7"
  have "b AND 0x80 = 0x80"
    by (rule bit_eqI) (simp only: bit7_and bit7_80 h, simp)
  then show "isbit7valueat1 b" by (simp only: isbit7valueat1_def)
qed

lemma isbit7valueat0_iff: "isbit7valueat0 b \<longleftrightarrow> \<not> bit b 7"
proof
  assume "isbit7valueat0 b"
  then have "bit (b AND 0x80) 7 = bit (0::byte) 7"
    by (simp only: isbit7valueat0_def)
  then show "\<not> bit b 7" by (simp only: bit7_and) simp
next
  assume h: "\<not> bit b 7"
  have "b AND 0x80 = 0"
    by (rule bit_eqI) (simp only: bit7_and h, simp)
  then show "isbit7valueat0 b" by (simp only: isbit7valueat0_def)
qed

lemma getitem_in_range:
  "0 \<le> k \<Longrightarrow> k < int (length xs) \<Longrightarrow> getitem xs k = Inr (xs ! nat k)"
  by (simp add: getitem_def)

lemma checktags_in_range:
  "\<forall>c \<in> set cs. 0 \<le> fst c \<and> fst c < int (length f) \<Longrightarrow>
   checktags f cs = Inr (\<forall>c \<in> set cs. bit (f ! nat (fst c)) 7 = snd c)"
proof (induction cs)
  case Nil
  show ?case by simp
next
  case (Cons c cs)
  obtain k b where c: "c = (k, b)" by (cases c)
  have r: "0 \<le> k" "k < int (length f)" using Cons.prems c by simp_all
  have ih: "checktags f cs = Inr (\<forall>c \<in> set cs. bit (f ! nat (fst c)) 7 = snd c)"
    using Cons.IH Cons.prems by simp
  show ?case
    using r by (auto simp add: c ih getitem_in_range isbit7valueat1_iff isbit7valueat0_iff)
qed

lemma set_py_range: "set (py_range n) = {0..<n}"
  by (auto simp add: py_range_def)

lemma channels_loop_in_range:
  "\<forall>i \<in> set is. 0 \<le> i \<and> 14 + i * 4 + 7 < int (length f) \<Longrightarrow>
   channels_loop f is =
     Inr (\<forall>i \<in> set is. \<forall>c \<in> set (channel_checks i). bit (f ! nat (fst c)) 7 = snd c)"
proof (induction "is")
  case Nil
  show ?case by simp
next
  case (Cons i "is")
  have r: "0 \<le> i" "14 + i * 4 + 7 < int (length f)" using Cons.prems by simp_all
  have c: "checktags f (channel_checks i) =
             Inr (\<forall>c \<in> set (channel_checks i). bit (f ! nat (fst c)) 7 = snd c)"
    by (rule checktags_in_range) (use r in \<open>simp add: channel_checks_def MEASUREFRAME_MINLENGTH_def\<close>)
  have ih: "channels_loop f is =
     Inr (\<forall>i \<in> set is. \<forall>c \<in> set (channel_checks i). bit (f ! nat (fst c)) 7 = snd c)"
    using Cons.IH Cons.prems by simp
  show ?case by (simp add: c ih)
qed

lemma ball_int_range: "(\<forall>i \<in> {0..<int c}. P i) \<longleftrightarrow> (\<forall>n < c. P (int n))"
proof
  assume h: "\<forall>i \<in> {0..<int c}. P i"
  show "\<forall>n < c. P (int n)" using h by simp
next
  assume h: "\<forall>n < c. P (int n)"
  show "\<forall>i \<in> {0..<int c}. P i"
  proof
    fix i assume "i \<in> {0..<int c}"
    then have "nat i < c" "int (nat i) = i" by auto
    then show "P i" using h by metis
  qed
qed

lemma header_checks_eval:
  assumes "14 \<le> length f"
  shows "checktags f header_checks = Inr (header_tags f)"
proof -
  have "checktags f header_checks =
          Inr (\<forall>c \<in> set header_checks. bit (f ! nat (fst c)) 7 = snd c)"
    by (rule checktags_in_range) (use assms in \<open>auto simp add: header_checks_def\<close>)
  also have "(\<forall>c \<in> set header_checks. bit (f ! nat (fst c)) 7 = snd c) = header_tags f"
    by (simp add: header_checks_def header_tags_def) blast
  finally show ?thesis .
qed

lemma channel_checks_eval:
  "(\<forall>c \<in> set (channel_checks (int n)). bit (f ! nat (fst c)) 7 = snd c)
   = (field_tags f (14 + 4 * n) \<and> field_tags f (14 + 4 * n + 4))"
proof -
  have n: "nat (14 + int n * 4) = 14 + 4 * n" "nat (14 + int n * 4 + 1) = 14 + 4 * n + 1"
    "nat (14 + int n * 4 + 2) = 14 + 4 * n + 2" "nat (14 + int n * 4 + 3) = 14 + 4 * n + 3"
    "nat (14 + int n * 4 + 4) = 14 + 4 * n + 4" "nat (14 + int n * 4 + 5) = 14 + 4 * n + 4 + 1"
    "nat (14 + int n * 4 + 6) = 14 + 4 * n + 4 + 2" "nat (14 + int n * 4 + 7) = 14 + 4 * n + 4 + 3"
    by linarith+
  show ?thesis
    by (simp only: channel_checks_def MEASUREFRAME_MINLENGTH_def list.set ball_simps
        fst_conv snd_conv n field_tags_def) blast
qed

lemma valid_code:
  assumes "length f = 14 + 8 * c"
  shows "ismeasureframevalid (int c) f =
           Inr (header_tags f \<and> (\<forall>i < c. field_tags f (14 + 4 * i) \<and> field_tags f (14 + 4 * i + 4)))"
proof -
  have len: "int (length f) = 14 + int c * 8" using assms by simp
  have h: "checktags f header_checks = Inr (header_tags f)"
    by (rule header_checks_eval) (use assms in simp)
  have "\<forall>i \<in> set (py_range (int c)). 0 \<le> i \<and> 14 + i * 4 + 7 < int (length f)"
    by (auto simp add: set_py_range len)
  then have "channels_loop f (py_range (int c)) =
     Inr (\<forall>i \<in> set (py_range (int c)). \<forall>c \<in> set (channel_checks i). bit (f ! nat (fst c)) 7 = snd c)"
    by (rule channels_loop_in_range)
  then have l: "channels_loop f (py_range (int c)) =
     Inr (\<forall>i < c. field_tags f (14 + 4 * i) \<and> field_tags f (14 + 4 * i + 4))"
    by (simp only: set_py_range ball_int_range channel_checks_eval)
  show ?thesis
    using assms
    by (simp add: ismeasureframevalid_def MEASUREFRAME_MINLENGTH_def POTENTIALVALUE_LENGTH_def h l)
qed

lemma channel_tags_stride4:
  assumes "channel_tags c f" and "i < c"
  shows "field_tags f (14 + 4 * i) \<and> field_tags f (14 + 4 * i + 4)"
proof (cases "even i")
  case True
  then obtain m where m: "i = 2 * m" by (elim evenE)
  have "m < c" using assms(2) m by simp
  then have "field_tags f (14 + 8 * m) \<and> field_tags f (14 + 8 * m + 4)"
    using assms(1) by (simp only: channel_tags_def)
  moreover have "14 + 4 * i = 14 + 8 * m" using m by simp
  ultimately show ?thesis by simp
next
  case False
  then obtain m where m: "i = 2 * m + 1" by (elim oddE)
  have lt: "m < c" "m + 1 < c" using assms(2) m by simp_all
  have every: "\<forall>i < c. field_tags f (14 + 8 * i) \<and> field_tags f (14 + 8 * i + 4)"
    using assms(1) by (simp only: channel_tags_def)
  have "field_tags f (14 + 8 * m + 4)" using every lt(1) by blast
  moreover have "field_tags f (14 + 8 * (m + 1))" using every lt(2) by blast
  moreover have "14 + 4 * i = 14 + 8 * m + 4" "14 + 4 * i + 4 = 14 + 8 * (m + 1)"
    using m by simp_all
  ultimately show ?thesis by simp
qed

section \<open>Length check\<close>

text \<open>
  C5. A reception buffer whose length differs from \<open>14 + 8 c\<close>, \<open>c\<close> the configured
  channel count, is rejected by the length test of the validator, whatever its bytes are
  (no byte is read, so no tag test runs and no index can be out of range), and the
  decoder returns \<open>result = False\<close> with all fields zero and both arrays empty.
\<close>

theorem wrong_length_rejected:
  assumes "int (length measureframe) \<noteq> 14 + 8 * c"
  shows "ismeasureframevalid c measureframe = Inr False
       \<and> from_measureframe c measureframe = Inr nomeasure"
  using assms
  by (simp add: ismeasureframevalid_def from_measureframe_def bind_err_def
      MEASUREFRAME_MINLENGTH_def POTENTIALVALUE_LENGTH_def)

theorem wrong_length_rejected_witness:
  "int (length (replicate 22 (0x80 :: byte))) \<noteq> 14 + 8 * 2
   \<and> ismeasureframevalid 2 (replicate 22 0x80) = Inr False
   \<and> from_measureframe 2 (replicate 22 0x80) = Inr nomeasure"
  using wrong_length_rejected [of "replicate 22 (0x80 :: byte)" 2] by simp

section \<open>Tag checks\<close>

text \<open>
  C2, as the specification states it, fails on a frame of channel count 0 that carries
  exactly the claimed tags: the validator tests byte 1 for tag 1 and rejects the frame.
\<close>

theorem valid_frame_tags_counterexample:
  "length frame14 = 14 + 8 * 0 \<and> claimed_header_tags frame14 \<and> channel_tags 0 frame14
   \<and> ismeasureframevalid 0 frame14 = Inr False"
  by (simp add: frame14_def claimed_header_tags_def channel_tags_def ismeasureframevalid_def
        MEASUREFRAME_MINLENGTH_def POTENTIALVALUE_LENGTH_def header_checks_def getitem_def
        isbit7valueat1_def isbit7valueat0_def bit7_80)

text \<open>
  C2, amended. For a frame of the required length \<open>14 + 8 c\<close>: the validator answers
  \<open>True\<close> or \<open>False\<close> and never raises. A frame whose bytes 0, 1, 2, 4, 6, 10 and the
  first byte of every per-channel field have tag 1, and whose bytes 3, 5, 7, 8, 9, 11, 12,
  13 and every other per-channel byte have tag 0, is valid. A valid frame has these tags on
  bytes 0 to 13 and, when there is a channel, on the block of channel 0; for \<open>c \<le> 1\<close>
  validity is exactly the tag condition.
\<close>

theorem valid_frame_tags:
  assumes "length f = 14 + 8 * c"
  shows "(header_tags f \<and> channel_tags c f \<longrightarrow> ismeasureframevalid (int c) f = Inr True)
       \<and> (ismeasureframevalid (int c) f = Inr True \<longrightarrow>
            header_tags f \<and> (0 < c \<longrightarrow> field_tags f 14 \<and> field_tags f 18))
       \<and> (c \<le> 1 \<longrightarrow>
            (ismeasureframevalid (int c) f = Inr True \<longleftrightarrow> header_tags f \<and> channel_tags c f))
       \<and> (ismeasureframevalid (int c) f \<noteq> Inr True \<longrightarrow> ismeasureframevalid (int c) f = Inr False)"
proof -
  let ?code = "\<forall>i < c. field_tags f (14 + 4 * i) \<and> field_tags f (14 + 4 * i + 4)"
  have v: "ismeasureframevalid (int c) f = Inr (header_tags f \<and> ?code)"
    using assms by (rule valid_code)
  have a: "channel_tags c f \<Longrightarrow> ?code"
    using channel_tags_stride4 by blast
  have b: "?code \<Longrightarrow> 0 < c \<Longrightarrow> field_tags f 14 \<and> field_tags f 18"
  proof -
    assume "?code" "0 < c"
    then have "field_tags f (14 + 4 * 0) \<and> field_tags f (14 + 4 * 0 + 4)" by blast
    then show ?thesis by simp
  qed
  have d: "c \<le> 1 \<Longrightarrow> ?code \<Longrightarrow> channel_tags c f"
  proof -
    assume c: "c \<le> 1" and h: "?code"
    show "channel_tags c f"
      unfolding channel_tags_def
    proof (intro allI impI)
      fix i assume "i < c"
      then have i: "i = 0" using c by simp
      have "field_tags f (14 + 4 * 0) \<and> field_tags f (14 + 4 * 0 + 4)"
        using h \<open>i < c\<close> i by blast
      then show "field_tags f (14 + 8 * i) \<and> field_tags f (14 + 8 * i + 4)"
        using i by simp
    qed
  qed
  have c1: "header_tags f \<and> channel_tags c f \<longrightarrow> ismeasureframevalid (int c) f = Inr True"
    using a by (simp only: v) blast
  have c2: "ismeasureframevalid (int c) f = Inr True \<longrightarrow>
            header_tags f \<and> (0 < c \<longrightarrow> field_tags f 14 \<and> field_tags f 18)"
    using b by (simp only: v sum.inject) blast
  have c3: "c \<le> 1 \<longrightarrow>
            (ismeasureframevalid (int c) f = Inr True \<longleftrightarrow> header_tags f \<and> channel_tags c f)"
    using a d by (simp only: v sum.inject) blast
  have c4: "ismeasureframevalid (int c) f \<noteq> Inr True \<longrightarrow> ismeasureframevalid (int c) f = Inr False"
    by (simp only: v sum.inject) blast
  show ?thesis using c1 c2 c3 c4 by blast
qed

theorem valid_frame_tags_witness:
  "length frame22 = 14 + 8 * 1 \<and> header_tags frame22 \<and> channel_tags 1 frame22
   \<and> ismeasureframevalid 1 frame22 = Inr True"
proof -
  have l: "length frame22 = 14 + 8 * 1" by (simp add: frame22_def)
  have h: "header_tags frame22" by (simp add: header_tags_def frame22_def bit7_80)
  have c: "channel_tags 1 frame22"
    by (simp add: channel_tags_def field_tags_def frame22_def bit7_80)
  show ?thesis using valid_frame_tags [OF l] l h c by simp
qed

section \<open>What the decoder computes\<close>

lemma low7_in_range:
  "0 \<le> k \<Longrightarrow> k < int (length f) \<Longrightarrow> low7 f k = Inr (uint (f ! nat k AND 0x7F))"
  by (simp add: low7_def bind_err_def getitem_in_range)

lemma unsigned14_in_range:
  "0 \<le> k \<Longrightarrow> k + 1 < int (length f) \<Longrightarrow> \<exists>v. unsigned14 f k = Inr v"
  by (simp add: unsigned14_def bind_err_def low7_in_range)

lemma unsigned28_in_range:
  "0 \<le> k \<Longrightarrow> k + 3 < int (length f) \<Longrightarrow> \<exists>v. unsigned28 f k = Inr v"
  by (simp add: unsigned28_def bind_err_def low7_in_range)

lemma signed28_in_range:
  "0 \<le> k \<Longrightarrow> k + 3 < int (length f) \<Longrightarrow> \<exists>v. signed28 f k = Inr v"
  using unsigned28_in_range [of k f] by (auto simp add: signed28_def bind_err_def)

lemma potentials_loop_in_range:
  "\<forall>i \<in> set is. 0 \<le> i \<and> 14 + i * 2 + 7 < int (length f) \<Longrightarrow>
   \<exists>ps qs. potentials_loop f is = Inr (ps, qs) \<and> length ps = length is \<and> length qs = length is"
proof (induction "is")
  case Nil
  show ?case by simp
next
  case (Cons i "is")
  have r: "0 \<le> i" "14 + i * 2 + 7 < int (length f)" using Cons.prems by simp_all
  obtain p where p: "signed28 f (14 + i * 2) = Inr p"
    using signed28_in_range [of "14 + i * 2" f] r by auto
  obtain q where q: "signed28 f (14 + i * 2 + 4) = Inr q"
    using signed28_in_range [of "14 + i * 2 + 4" f] r by auto
  obtain ps qs where l: "potentials_loop f is = Inr (ps, qs)" "length ps = length is"
      "length qs = length is"
    using Cons.IH Cons.prems by auto
  have q': "signed28 f (18 + i * 2) = Inr q" using q by (simp add: algebra_simps)
  show ?case by (simp add: MEASUREFRAME_MINLENGTH_def p q' l bind_err_def)
qed

lemma checktags_True_reads:
  "checktags f cs = Inr True \<Longrightarrow> \<forall>c \<in> set cs. \<exists>b. getitem f (fst c) = Inr b"
proof (induction cs)
  case Nil
  show ?case by simp
next
  case (Cons c cs)
  obtain k b where c: "c = (k, b)" by (cases c)
  show ?case using Cons by (auto simp add: c split: sum.splits if_splits)
qed

lemma getitem_Inr_nonneg: "getitem xs k = Inr b \<Longrightarrow> 0 \<le> k \<Longrightarrow> k < int (length xs)"
  by (auto simp add: getitem_def split: if_splits)

lemma valid_True_length:
  assumes "ismeasureframevalid c f = Inr True"
  shows "int (length f) = 14 + 8 * c \<and> 14 \<le> length f \<and> 0 \<le> c"
proof -
  have len: "int (length f) = 14 + 8 * c"
    using assms by (auto simp add: ismeasureframevalid_def MEASUREFRAME_MINLENGTH_def
        POTENTIALVALUE_LENGTH_def split: if_splits)
  have "checktags f header_checks = Inr True"
    using assms by (auto simp add: ismeasureframevalid_def split: if_splits sum.splits)
  then have "\<forall>c \<in> set header_checks. \<exists>b. getitem f (fst c) = Inr b"
    by (rule checktags_True_reads)
  then obtain b where "getitem f 13 = Inr b" by (auto simp add: header_checks_def)
  then have "13 < int (length f)" using getitem_Inr_nonneg [of f 13 b] by simp
  then show ?thesis using len by auto
qed

lemma valid_total:
  assumes "0 \<le> c"
  shows "ismeasureframevalid c f = Inr True \<or> ismeasureframevalid c f = Inr False"
proof (cases "int (length f) = 14 + 8 * c")
  case False
  then show ?thesis
    by (simp add: ismeasureframevalid_def MEASUREFRAME_MINLENGTH_def POTENTIALVALUE_LENGTH_def)
next
  case True
  then have "length f = 14 + 8 * nat c" using assms by linarith
  then have "ismeasureframevalid (int (nat c)) f =
           Inr (header_tags f \<and> (\<forall>i < nat c. field_tags f (14 + 4 * i) \<and> field_tags f (14 + 4 * i + 4)))"
    by (rule valid_code)
  then show ?thesis using assms by (cases "header_tags f \<and> (\<forall>i < nat c. field_tags f (14 + 4 * i) \<and> field_tags f (14 + 4 * i + 4))") simp_all
qed

lemma from_measureframe_valid:
  assumes "ismeasureframevalid c f = Inr True"
  shows "\<exists>m. from_measureframe c f = Inr m \<and> result m
           \<and> length (phasepotentialarray m) = nat c \<and> length (quadpotentialarray m) = nat c"
proof -
  have len: "int (length f) = 14 + 8 * c" "14 \<le> length f" "0 \<le> c"
    using valid_True_length [OF assms] by simp_all
  obtain v0 where v0: "unsigned14 f 0 = Inr v0"
    using unsigned14_in_range [of 0 f] len by auto
  obtain v2 where v2: "unsigned14 f 2 = Inr v2"
    using unsigned14_in_range [of 2 f] len by auto
  obtain v4 where v4: "unsigned14 f 4 = Inr v4"
    using unsigned14_in_range [of 4 f] len by auto
  obtain v6 where v6: "signed28 f 6 = Inr v6"
    using signed28_in_range [of 6 f] len by auto
  obtain v10 where v10: "signed28 f 10 = Inr v10"
    using signed28_in_range [of 10 f] len by auto
  have "\<forall>i \<in> set (py_range c). 0 \<le> i \<and> 14 + i * 2 + 7 < int (length f)"
    using len by (auto simp add: set_py_range)
  then obtain ps qs where l: "potentials_loop f (py_range c) = Inr (ps, qs)"
      "length ps = length (py_range c)" "length qs = length (py_range c)"
    using potentials_loop_in_range by blast
  have n: "length (py_range c) = nat c" by (simp add: py_range_def)
  show ?thesis
    by (simp add: from_measureframe_def bind_err_def assms v0 v2 v4 v6 v10 l n)
qed

lemma py_range_0: "py_range 0 = []" by (simp add: py_range_def)
lemma py_range_1: "py_range 1 = [0]" by (simp add: py_range_def upto.simps)
lemma py_range_2: "py_range 2 = [0, 1]" by (simp add: py_range_def upto.simps)

lemmas frame_eval =
  ismeasureframevalid_def from_measureframe_def header_checks_def channel_checks_def
  MEASUREFRAME_MINLENGTH_def POTENTIALVALUE_LENGTH_def getitem_def bind_err_def
  isbit7valueat1_def isbit7valueat0_def unsigned14_def unsigned28_def signed28_def low7_def
  signcorrection_def py_range_0 py_range_1 py_range_2

lemma foldl_append_nth:
  "n \<le> length bytes \<Longrightarrow> foldl (\<lambda>r l. r @ [bytes ! l]) r0 [0..<n] = r0 @ take n bytes"
proof (induction n)
  case 0
  show ?case by simp
next
  case (Suc n)
  then show ?case by (simp add: take_Suc_conv_app_nth)
qed

lemma updatereceptionframe_append:
  "updatereceptionframe bytes s = s\<lparr>recframe := recframe s @ bytes\<rparr>"
  by (simp add: updatereceptionframe_def foldl_append_nth)

section \<open>Sign correction\<close>

text \<open>Away from the single pattern \<open>2 ^ 27\<close> the correction is two's complement over 28 bits.\<close>

lemma signcorrection_twos_complement:
  "v \<noteq> 2 ^ 27 \<Longrightarrow> signcorrection v = (if v > 2 ^ 27 - 1 then v - 2 ^ 28 else v)"
  by (simp add: signcorrection_def)

text \<open>
  C3. The source compares with \<^verbatim>\<open>pow(2,27)\<close>, not with \<open>2 ^ 27 - 1\<close>: the raw
  pattern \<open>2 ^ 27\<close> is left as it is, where two's complement over 28 bits gives
  \<open>- (2 ^ 27)\<close>; the pattern \<open>2 ^ 27 + 5\<close> does decode to \<open>5 - 2 ^ 27\<close>.
\<close>

theorem signed_decode_at_2p27:
  "unsigned28 frame_2p27 6 = Inr (2 ^ 27)
   \<and> from_measureframe 0 frame_2p27 =
       Inr \<lparr>result = True, count = 0, recbatvoltage = 0, embatvoltage = 0,
            phasecurrent = 2 ^ 27, quadcurrent = 0,
            phasepotentialarray = [], quadpotentialarray = []\<rparr>
   \<and> signcorrection (2 ^ 27) = 2 ^ 27
   \<and> signcorrection (2 ^ 27 + 5) = 5 - 2 ^ 27"
  by (simp add: frame_2p27_def frame_eval)

section \<open>Offsets of the channel potentials\<close>

text \<open>
  C1. The decoder reads channel \<open>i\<close> at \<^verbatim>\<open>MEASUREFRAME_MINLENGTH+i*2\<close>: for channel
  1 it takes bytes 16 to 19 and 20 to 23, not the fields at offsets 22 and 26.
\<close>

theorem channel_potentials_offsets:
  "ismeasureframevalid 2 frame30 = Inr True
   \<and> from_measureframe 2 frame30 =
       Inr \<lparr>result = True, count = 0, recbatvoltage = 0, embatvoltage = 0,
            phasecurrent = 0, quadcurrent = 0,
            phasepotentialarray = [1, 32768], quadpotentialarray = [2, 49152]\<rparr>
   \<and> signed28 frame30 22 = Inr 3 \<and> signed28 frame30 26 = Inr 4"
  by (simp add: frame30_def frame_eval)

section \<open>Reception buffer\<close>

text \<open>
  C9. \<^verbatim>\<open>updatereceptionframe\<close> appends the bytes read to the reception buffer and
  changes nothing else. \<^verbatim>\<open>getrawmeasures\<close> empties the buffer when the validator
  accepts it, and then the decoding succeeds; when the validator rejects the buffer, or
  raises, the session is unchanged.
\<close>

theorem recframe_cleared_on_success:
  "updatereceptionframe bytes s = s\<lparr>recframe := recframe s @ bytes\<rparr>
   \<and> (ismeasureframevalid (channels_nb s) (recframe s) = Inr True \<longrightarrow>
        (\<exists>m. getrawmeasures s = (Inr m, s\<lparr>recframe := []\<rparr>) \<and> result m))
   \<and> (ismeasureframevalid (channels_nb s) (recframe s) = Inr False \<longrightarrow>
        getrawmeasures s = (Inr nomeasure, s))
   \<and> (\<forall>e. ismeasureframevalid (channels_nb s) (recframe s) = Inl e \<longrightarrow>
        getrawmeasures s = (Inl e, s))"
proof -
  have a: "ismeasureframevalid (channels_nb s) (recframe s) = Inr True \<longrightarrow>
        (\<exists>m. getrawmeasures s = (Inr m, s\<lparr>recframe := []\<rparr>) \<and> result m)"
  proof
    assume "ismeasureframevalid (channels_nb s) (recframe s) = Inr True"
    then obtain m where "from_measureframe (channels_nb s) (recframe s) = Inr m" "result m"
      using from_measureframe_valid by blast
    then show "\<exists>m. getrawmeasures s = (Inr m, s\<lparr>recframe := []\<rparr>) \<and> result m"
      by (simp add: getrawmeasures_def)
  qed
  have b: "ismeasureframevalid (channels_nb s) (recframe s) = Inr False \<longrightarrow>
        getrawmeasures s = (Inr nomeasure, s)"
    by (simp add: getrawmeasures_def from_measureframe_def bind_err_def nomeasure_def)
  have c: "\<forall>e. ismeasureframevalid (channels_nb s) (recframe s) = Inl e \<longrightarrow>
        getrawmeasures s = (Inl e, s)"
    by (simp add: getrawmeasures_def from_measureframe_def bind_err_def)
  show ?thesis using a b c updatereceptionframe_append by blast
qed

theorem recframe_cleared_on_success_witness:
  "ismeasureframevalid (channels_nb session22) (recframe session22) = Inr True
   \<and> snd (getrawmeasures session22) = session22\<lparr>recframe := []\<rparr>
   \<and> ismeasureframevalid (channels_nb (updatereceptionframe [0] session22))
        (recframe (updatereceptionframe [0] session22)) = Inr False
   \<and> getrawmeasures (updatereceptionframe [0] session22)
        = (Inr nomeasure, updatereceptionframe [0] session22)"
proof -
  have v: "ismeasureframevalid (channels_nb session22) (recframe session22) = Inr True"
    by (simp add: session22_def init_session_def frame22_def frame_eval)
  have w: "ismeasureframevalid (channels_nb (updatereceptionframe [0] session22))
        (recframe (updatereceptionframe [0] session22)) = Inr False"
    by (simp add: updatereceptionframe_append session22_def init_session_def frame22_def
        ismeasureframevalid_def MEASUREFRAME_MINLENGTH_def POTENTIALVALUE_LENGTH_def)
  show ?thesis
    using v w recframe_cleared_on_success [of "[0]" session22]
      recframe_cleared_on_success [of "[0]" "updatereceptionframe [0] session22"]
    by auto
qed

section \<open>What the encoder and the verifier compute\<close>

lemma ux20: "voltage_to_Ux 20 = 207"
  by (simp add: voltage_to_Ux_def py_round_def Let_def)

lemma fx1: "frequency_to_Fx 1 = 537"
  by (simp add: frequency_to_Fx_def py_round_def Let_def)

lemma cfg_example:
  "to_configframe (PyFloat 20) (PyFloat 1) (PyInt 1) (PyInt 1) (PyInt 1)
     = Inr [0x9F, 3, 25, 4, 0, 0, 1, 1, 1, 0]"
  by (simp add: to_configframe_def is_float_def is_integer_def real_of_pyval_def int_of_pyval_def
      INJVOLT_MIN_def INJVOLT_MAX_def INJFREQ_MIN_def INJFREQ_MAX_def UX_MAX_def FX_MAX_def
      IX_MAX_def TX_MAX_def ux20 fx1 hex_to_bytes_def)

lemma echo_loop_in_range:
  "\<forall>l \<in> set ls. 0 \<le> l \<and> l < int (length ackframe) \<and> l < int (length configframe) \<Longrightarrow>
   echo_loop ackframe configframe ls =
     Inr (\<forall>l \<in> set ls. ackframe ! nat l = configframe ! nat l)"
proof (induction ls)
  case Nil
  show ?case by simp
next
  case (Cons l ls)
  have r: "0 \<le> l" "l < int (length ackframe)" "l < int (length configframe)"
    using Cons.prems by simp_all
  have ih: "echo_loop ackframe configframe ls =
     Inr (\<forall>l \<in> set ls. ackframe ! nat l = configframe ! nat l)"
    using Cons.IH Cons.prems by simp
  show ?case using r by (simp add: ih bind_err_def getitem_in_range)
qed

lemma take_eq_iff_nth:
  assumes "length ackframe = length configframe + 1"
  shows "(\<forall>l \<in> {0..<int (length configframe)}. ackframe ! nat l = configframe ! nat l)
         \<longleftrightarrow> take (length configframe) ackframe = configframe"
proof -
  have "(\<forall>l \<in> {0..<int (length configframe)}. ackframe ! nat l = configframe ! nat l)
        \<longleftrightarrow> (\<forall>n < length configframe. ackframe ! n = configframe ! n)"
    by (simp only: ball_int_range nat_int)
  also have "\<dots> \<longleftrightarrow> take (length configframe) ackframe = configframe"
    using assms by (auto simp add: list_eq_iff_nth_eq)
  finally show ?thesis .
qed

lemma getitem_last:
  "xs \<noteq> [] \<Longrightarrow> getitem xs (- 1) = Inr (last xs)"
  by (cases xs rule: rev_cases) (simp_all add: getitem_def nat_add_distrib)

lemma run_bit: "uint ((b :: byte) AND 0x01) = uint b mod 2"
proof -
  have "uint (b AND 1) = uint b AND uint (1 :: byte)" by (simp only: uint_and)
  also have "\<dots> = uint b mod 2" by (simp add: and_one_eq)
  finally show ?thesis .
qed

lemma boardid_bits: "drop_bit 1 (uint ((b :: byte) AND 0x7E)) = uint b div 2 mod 64"
proof -
  have "drop_bit 1 (uint (b AND 0x7E)) = drop_bit 1 (uint b) AND drop_bit 1 (0x7E :: int)"
    by (simp add: uint_and)
  also have "drop_bit 1 (0x7E :: int) = mask 6" by (simp add: drop_bit_eq_div mask_eq_exp_minus_1)
  also have "drop_bit 1 (uint b) AND mask 6 = take_bit 6 (drop_bit 1 (uint b))"
    by (simp add: take_bit_eq_mask)
  also have "\<dots> = uint b div 2 mod 64" by (simp add: take_bit_eq_mod drop_bit_eq_div)
  finally show ?thesis .
qed

lemma boardid_bits_Suc: "drop_bit (Suc 0) (uint ((b :: byte) AND 0x7E)) = uint b div 2 mod 64"
  using boardid_bits [of b] by simp

lemma verifconfigack_eval:
  "verifconfigack ackframe configframe =
     Inr (if length ackframe = length configframe + 1
             \<and> take (length configframe) ackframe = configframe
          then (True, uint (last ackframe) mod 2, uint (last ackframe) div 2 mod 64)
          else (False, 0, 0))"
proof (cases "length ackframe = length configframe + 1")
  case False
  then show ?thesis by (simp add: verifconfigack_def)
next
  case True
  have "\<forall>l \<in> set (py_range (int (length configframe))).
          0 \<le> l \<and> l < int (length ackframe) \<and> l < int (length configframe)"
    using True by (auto simp add: set_py_range)
  then have "echo_loop ackframe configframe (py_range (int (length configframe))) =
     Inr (\<forall>l \<in> set (py_range (int (length configframe))). ackframe ! nat l = configframe ! nat l)"
    by (rule echo_loop_in_range)
  then have e: "echo_loop ackframe configframe (py_range (int (length configframe))) =
     Inr (take (length configframe) ackframe = configframe)"
    by (simp only: set_py_range take_eq_iff_nth [OF True])
  have "ackframe \<noteq> []" using True by auto
  then have l: "getitem ackframe (- 1) = Inr (last ackframe)" by (rule getitem_last)
  show ?thesis
    using True by (simp add: verifconfigack_def e l bind_err_def run_bit boardid_bits_Suc)
qed

lemma to_configframe_length:
  "to_configframe v f i c t = Inr configframe \<Longrightarrow> length configframe = 10"
  by (auto simp add: to_configframe_def Let_def hex_to_bytes_def split: if_splits)

lemma to_configframe_numbers:
  "to_configframe v f i c t = Inr configframe \<Longrightarrow> PyOther \<notin> set [v, f, i, c, t]"
  by (auto simp add: to_configframe_def Let_def is_float_def is_integer_def split: if_splits)

lemma py_round_le:
  assumes "x < of_int n + 1 / 2"
  shows "py_round x \<le> n"
proof (cases "\<lfloor>x\<rfloor> = n")
  case True
  then have "x - of_int \<lfloor>x\<rfloor> < 1 / 2" using assms by simp
  then show ?thesis using True by (simp add: py_round_def Let_def)
next
  case False
  have "x < of_int (n + 1)" using assms by simp
  then have "\<lfloor>x\<rfloor> < n + 1" by (simp only: floor_less_iff)
  then have "\<lfloor>x\<rfloor> + 1 \<le> n" using False by simp
  then show ?thesis by (simp add: py_round_def Let_def)
qed

lemma py_round_ge:
  assumes "of_int n - 1 / 2 < x"
  shows "n \<le> py_round x"
proof (cases "n \<le> \<lfloor>x\<rfloor>")
  case True
  then show ?thesis by (simp add: py_round_def Let_def)
next
  case False
  have "of_int (n - 1) \<le> x" using assms by simp
  then have "n - 1 \<le> \<lfloor>x\<rfloor>" by (simp only: le_floor_iff)
  then have f: "\<lfloor>x\<rfloor> = n - 1" using False by simp
  have "1 / 2 < x - of_int \<lfloor>x\<rfloor>" using assms by (simp add: f)
  then show ?thesis by (simp add: py_round_def Let_def f)
qed

lemma Ux_in_range:
  assumes "16.55 \<le> x" and "x \<le> 196.51"
  shows "0 \<le> voltage_to_Ux x \<and> voltage_to_Ux x \<le> 255"
proof -
  have x0: "0 < x" using assms(1) by simp
  have up: "900 / x \<le> 54.39" using x0 assms(1) by (simp add: pos_divide_le_eq)
  have lo: "4.579 \<le> 900 / x" using x0 assms(2) by (simp add: pos_le_divide_eq)
  have "(256 * ((900 / x) - 0.08 - 4.5)) / 50 < of_int 255 + 1 / 2" using up by simp
  then have a: "voltage_to_Ux x \<le> 255" unfolding voltage_to_Ux_def by (rule py_round_le)
  have "of_int 0 - 1 / 2 < (256 * ((900 / x) - 0.08 - 4.5)) / 50" using lo by simp
  then have b: "0 \<le> voltage_to_Ux x" unfolding voltage_to_Ux_def by (rule py_round_ge)
  show ?thesis using a b by simp
qed

lemma Fx_in_range:
  assumes "0 \<le> y" and "y \<le> 62499"
  shows "0 \<le> frequency_to_Fx y \<and> frequency_to_Fx y \<le> 33554431"
proof -
  have "y * (2 ^ 28 / 500000) < of_int 33554431 + 1 / 2" using assms by simp
  then have a: "frequency_to_Fx y \<le> 33554431" unfolding frequency_to_Fx_def by (rule py_round_le)
  have "0 \<le> y * (2 ^ 28 / 500000)" using assms(1) by simp
  then have "of_int 0 - 1 / 2 < y * (2 ^ 28 / 500000)" by simp
  then have b: "0 \<le> frequency_to_Fx y" unfolding frequency_to_Fx_def by (rule py_round_ge)
  show ?thesis using a b by simp
qed

lemma ux_at_min: "voltage_to_Ux 16.55 = 255"
  by (simp add: voltage_to_Ux_def py_round_def Let_def)

lemma to_configframe_rejects:
  "to_configframe v f i c t \<noteq> Inl BadConfigParamException \<Longrightarrow>
   \<exists>configframe. to_configframe v f i c t = Inr configframe"
  by (simp add: to_configframe_def Let_def split: if_splits)

lemma to_configframe_accepts:
  assumes "INJVOLT_MIN \<le> x" "x \<le> INJVOLT_MAX" "INJFREQ_MIN \<le> y" "y \<le> INJFREQ_MAX"
    "a \<le> IX_MAX" "b \<le> UX_MAX" "d \<le> TX_MAX"
  shows "\<exists>configframe.
    to_configframe (PyFloat x) (PyFloat y) (PyInt a) (PyInt b) (PyInt d) = Inr configframe"
proof -
  have u: "voltage_to_Ux x \<le> 255"
    using Ux_in_range [of x] assms(1,2) by (simp add: INJVOLT_MIN_def INJVOLT_MAX_def)
  have w: "frequency_to_Fx y \<le> 33554431"
    using Fx_in_range [of y] assms(3,4) by (simp add: INJFREQ_MIN_def INJFREQ_MAX_def)
  show ?thesis
    using assms u w
    by (simp add: to_configframe_def Let_def is_float_def is_integer_def real_of_pyval_def
        int_of_pyval_def UX_MAX_def FX_MAX_def)
qed

lemma to_configframe_count_rejected:
  assumes "\<not> is_integer i \<or> IX_MAX < int_of_pyval i
         \<or> \<not> is_integer c \<or> UX_MAX < int_of_pyval c
         \<or> \<not> is_integer t \<or> TX_MAX < int_of_pyval t"
  shows "to_configframe v f i c t = Inl BadConfigParamException"
  using assms by (auto simp add: to_configframe_def Let_def)

section \<open>Acknowledgement\<close>

text \<open>
  C4. For the frame the encoder produced, which has ten bytes: the verification succeeds
  exactly when the acknowledgement has eleven bytes whose first ten are the configuration
  frame; it then returns bit 0 of the eleventh byte as \<open>run\<close> and its bits 1 to 6 as
  \<open>boardid\<close> (\<open>0x05\<close> gives 1 and 2), and \<^verbatim>\<open>setconfig\<close> stores the five
  parameters. On any other acknowledgement \<^verbatim>\<open>setconfig\<close> raises
  \<^verbatim>\<open>BadAckException\<close> and the session is unchanged.
\<close>

theorem config_ack_verification:
  assumes "to_configframe v f i c t = Inr configframe"
  shows "length configframe = 10
   \<and> (length ackframe = 11 \<and> take 10 ackframe = configframe \<longrightarrow>
        verifconfigack ackframe configframe
          = Inr (True, uint (ackframe ! 10) mod 2, uint (ackframe ! 10) div 2 mod 64)
        \<and> setconfig s v f i c t True ackframe
          = (Inr True,
             s\<lparr>voltage := real_of_pyval v, frequency := real_of_pyval f,
               impuls_nb := int_of_pyval i, channels_nb := int_of_pyval c,
               integration_nb := int_of_pyval t\<rparr>))
   \<and> (\<not> (length ackframe = 11 \<and> take 10 ackframe = configframe) \<longrightarrow>
        verifconfigack ackframe configframe = Inr (False, 0, 0)
        \<and> setconfig s v f i c t True ackframe = (Inl BadAckException, s))
   \<and> verifconfigack (configframe @ [0x05]) configframe = Inr (True, 1, 2)"
proof -
  have len: "length configframe = 10" using assms by (rule to_configframe_length)
  have num: "PyOther \<notin> set [v, f, i, c, t]" using assms by (rule to_configframe_numbers)
  have ok: "length ackframe = 11 \<and> take 10 ackframe = configframe \<longrightarrow>
        verifconfigack ackframe configframe
          = Inr (True, uint (ackframe ! 10) mod 2, uint (ackframe ! 10) div 2 mod 64)"
  proof
    assume h: "length ackframe = 11 \<and> take 10 ackframe = configframe"
    then have "ackframe \<noteq> []" by auto
    then have "last ackframe = ackframe ! 10" using h by (simp add: last_conv_nth)
    then show "verifconfigack ackframe configframe
          = Inr (True, uint (ackframe ! 10) mod 2, uint (ackframe ! 10) div 2 mod 64)"
      using h len by (simp add: verifconfigack_eval)
  qed
  have bad: "\<not> (length ackframe = 11 \<and> take 10 ackframe = configframe) \<longrightarrow>
        verifconfigack ackframe configframe = Inr (False, 0, 0)"
    using len by (simp add: verifconfigack_eval)
  have s1: "length ackframe = 11 \<and> take 10 ackframe = configframe \<longrightarrow>
        setconfig s v f i c t True ackframe
          = (Inr True,
             s\<lparr>voltage := real_of_pyval v, frequency := real_of_pyval f,
               impuls_nb := int_of_pyval i, channels_nb := int_of_pyval c,
               integration_nb := int_of_pyval t\<rparr>)"
    using ok num assms by (simp add: setconfig_def)
  have s2: "\<not> (length ackframe = 11 \<and> take 10 ackframe = configframe) \<longrightarrow>
        setconfig s v f i c t True ackframe = (Inl BadAckException, s)"
    using bad num assms by (simp add: setconfig_def)
  have ex: "verifconfigack (configframe @ [0x05]) configframe = Inr (True, 1, 2)"
    by (simp add: verifconfigack_eval)
  show ?thesis using len ok bad s1 s2 ex by blast
qed

theorem config_ack_verification_witness:
  "to_configframe (PyFloat 20) (PyFloat 1) (PyInt 1) (PyInt 1) (PyInt 1) = Inr configframe20
   \<and> verifconfigack (configframe20 @ [0x05]) configframe20 = Inr (True, 1, 2)
   \<and> setconfig init_session (PyFloat 20) (PyFloat 1) (PyInt 1) (PyInt 1) (PyInt 1) True
        (configframe20 @ [0x05])
      = (Inr True,
         \<lparr>recframe = [], voltage = 20, frequency = 1, impuls_nb = 1, channels_nb = 1,
          integration_nb = 1\<rparr>)
   \<and> setconfig init_session (PyFloat 20) (PyFloat 1) (PyInt 1) (PyInt 1) (PyInt 1) True
        configframe20
      = (Inl BadAckException, init_session)"
proof -
  have e: "to_configframe (PyFloat 20) (PyFloat 1) (PyInt 1) (PyInt 1) (PyInt 1)
             = Inr configframe20"
    by (simp add: configframe20_def cfg_example)
  show ?thesis
    using e config_ack_verification [OF e, of "configframe20 @ [0x05]" init_session]
      config_ack_verification [OF e, of configframe20 init_session]
    by (simp add: configframe20_def init_session_def real_of_pyval_def int_of_pyval_def)
qed

section \<open>Voltage conversion\<close>

text \<open>
  C6, as the specification states it, fails: no voltage of the physical range converts to
  a \<open>Ux\<close> above 255, and the lowest voltage, 16.55, gives exactly 255. (Voltages are exact
  reals here; the expression stays more than 0.4 below 255.5 on the whole range, far more
  than the rounding error of double precision.)
\<close>

theorem voltage_conversion_counterexample:
  "voltage_to_Ux INJVOLT_MIN = 255
   \<and> \<not> (\<exists>x. INJVOLT_MIN \<le> x \<and> x \<le> INJVOLT_MAX \<and> voltage_to_Ux x > UX_MAX)"
proof -
  have "\<not> voltage_to_Ux x > UX_MAX" if "INJVOLT_MIN \<le> x" and "x \<le> INJVOLT_MAX" for x
  proof -
    have "voltage_to_Ux x \<le> 255"
      using that Ux_in_range [of x] by (simp add: INJVOLT_MIN_def INJVOLT_MAX_def)
    then show ?thesis by (simp add: UX_MAX_def)
  qed
  then have "\<not> (\<exists>x. INJVOLT_MIN \<le> x \<and> x \<le> INJVOLT_MAX \<and> voltage_to_Ux x > UX_MAX)"
    by blast
  moreover have "voltage_to_Ux INJVOLT_MIN = 255"
    using ux_at_min by (simp add: INJVOLT_MIN_def)
  ultimately show ?thesis by blast
qed

text \<open>
  C6, amended. Every voltage of the physical range converts to a \<open>Ux\<close> between 0 and 255,
  so the conversion test never rejects it: with parameters that pass the other tests the
  encoder produces a frame.
\<close>

theorem voltage_conversion_never_rejects:
  assumes "INJVOLT_MIN \<le> x" and "x \<le> INJVOLT_MAX"
  shows "0 \<le> voltage_to_Ux x \<and> voltage_to_Ux x \<le> UX_MAX
       \<and> (\<exists>configframe.
            to_configframe (PyFloat x) (PyFloat 0) (PyInt 0) (PyInt 0) (PyInt 0) = Inr configframe)"
proof -
  have "0 \<le> voltage_to_Ux x \<and> voltage_to_Ux x \<le> 255"
    using assms Ux_in_range [of x] by (simp add: INJVOLT_MIN_def INJVOLT_MAX_def)
  moreover have "\<exists>configframe.
            to_configframe (PyFloat x) (PyFloat 0) (PyInt 0) (PyInt 0) (PyInt 0) = Inr configframe"
    by (rule to_configframe_accepts)
      (use assms in \<open>simp_all add: INJFREQ_MIN_def INJFREQ_MAX_def IX_MAX_def UX_MAX_def TX_MAX_def\<close>)
  ultimately show ?thesis by (simp add: UX_MAX_def)
qed

theorem voltage_conversion_never_rejects_witness:
  "INJVOLT_MIN \<le> 16.55 \<and> 16.55 \<le> INJVOLT_MAX \<and> voltage_to_Ux 16.55 = 255
   \<and> voltage_to_Ux 16.55 \<le> UX_MAX
   \<and> (\<exists>configframe.
         to_configframe (PyFloat 16.55) (PyFloat 0) (PyInt 0) (PyInt 0) (PyInt 0) = Inr configframe)"
proof -
  have a: "INJVOLT_MIN \<le> 16.55" by (simp add: INJVOLT_MIN_def)
  have b: "16.55 \<le> INJVOLT_MAX" by (simp add: INJVOLT_MAX_def)
  show ?thesis using voltage_conversion_never_rejects [OF a b] a b ux_at_min by simp
qed

section \<open>Count parameters\<close>

text \<open>
  C7. The encoder tests the three counts for being integers and against their upper
  bounds only, where the voltage and the frequency are tested against both bounds: a
  negative count is not rejected. The counts \<open>-1, -1, -1\<close> give the same frame as
  \<open>127, 127, 16383\<close>; once the device has echoed it the session stores the channel count
  \<open>-1\<close>, and the validator then raises \<^verbatim>\<open>IndexError\<close> on a buffer of six bytes.
\<close>

theorem negative_counts_accepted:
  "to_configframe (PyFloat 20) (PyFloat 1) (PyInt (- 1)) (PyInt (- 1)) (PyInt (- 1))
     = Inr [0x9F, 3, 25, 4, 0, 0, 127, 127, 127, 127]
   \<and> to_configframe (PyFloat 20) (PyFloat 1) (PyInt 127) (PyInt 127) (PyInt 16383)
     = Inr [0x9F, 3, 25, 4, 0, 0, 127, 127, 127, 127]
   \<and> setconfig init_session (PyFloat 20) (PyFloat 1) (PyInt (- 1)) (PyInt (- 1)) (PyInt (- 1))
        True [0x9F, 3, 25, 4, 0, 0, 127, 127, 127, 127, 0x05]
      = (Inr True,
         \<lparr>recframe = [], voltage = 20, frequency = 1, impuls_nb = - 1, channels_nb = - 1,
          integration_nb = - 1\<rparr>)
   \<and> ismeasureframevalid (- 1) [0x80, 0x80, 0x80, 0x00, 0x80, 0x00] = Inl IndexError"
proof -
  have a: "to_configframe (PyFloat 20) (PyFloat 1) (PyInt (- 1)) (PyInt (- 1)) (PyInt (- 1))
     = Inr [0x9F, 3, 25, 4, 0, 0, 127, 127, 127, 127]"
    by (simp add: to_configframe_def is_float_def is_integer_def real_of_pyval_def
        int_of_pyval_def INJVOLT_MIN_def INJVOLT_MAX_def INJFREQ_MIN_def INJFREQ_MAX_def
        UX_MAX_def FX_MAX_def IX_MAX_def TX_MAX_def ux20 fx1 hex_to_bytes_def)
  have b: "to_configframe (PyFloat 20) (PyFloat 1) (PyInt 127) (PyInt 127) (PyInt 16383)
     = Inr [0x9F, 3, 25, 4, 0, 0, 127, 127, 127, 127]"
    by (simp add: to_configframe_def is_float_def is_integer_def real_of_pyval_def
        int_of_pyval_def INJVOLT_MIN_def INJVOLT_MAX_def INJFREQ_MIN_def INJFREQ_MAX_def
        UX_MAX_def FX_MAX_def IX_MAX_def TX_MAX_def ux20 fx1 hex_to_bytes_def)
  have c: "setconfig init_session (PyFloat 20) (PyFloat 1) (PyInt (- 1)) (PyInt (- 1))
        (PyInt (- 1)) True [0x9F, 3, 25, 4, 0, 0, 127, 127, 127, 127, 0x05]
      = (Inr True,
         \<lparr>recframe = [], voltage = 20, frequency = 1, impuls_nb = - 1, channels_nb = - 1,
          integration_nb = - 1\<rparr>)"
    by (simp add: setconfig_def a verifconfigack_eval init_session_def real_of_pyval_def
        int_of_pyval_def)
  have d: "ismeasureframevalid (- 1) [0x80, 0x80, 0x80, 0x00, 0x80, 0x00] = Inl IndexError"
    by (simp add: ismeasureframevalid_def header_checks_def MEASUREFRAME_MINLENGTH_def
        POTENTIALVALUE_LENGTH_def getitem_def isbit7valueat1_def isbit7valueat0_def)
  show ?thesis using a b c d by simp
qed

section \<open>Resistivity at zero current\<close>

lemma toresistivityvalue_zero:
  "toresistivityvalue 0 0 vp vq = Inl ZeroDivisionError"
  by (simp add: toresistivityvalue_def py_div_def bind_err_def)

text \<open>
  C8. With both currents zero the divisor \<open>Iphase\<^sup>2 + Iquad\<^sup>2\<close> is zero and the
  division raises: \<^verbatim>\<open>toresistivityvalue\<close> has no guard, and \<^verbatim>\<open>getallmeasures\<close>
  on a valid one-channel frame with zero current codes raises too, after the reception
  buffer has been cleared.
\<close>

theorem resistivity_zero_current:
  "toresistivityvalue 0 0 phasepotential quadpotential = Inl ZeroDivisionError
   \<and> getallmeasures session22 = (Inl ZeroDivisionError, session22\<lparr>recframe := []\<rparr>)"
proof -
  have a: "toresistivityvalue 0 0 phasepotential quadpotential = Inl ZeroDivisionError"
    by (rule toresistivityvalue_zero)
  have m: "from_measureframe 1 frame22 =
       Inr \<lparr>result = True, count = 0, recbatvoltage = 0, embatvoltage = 0,
            phasecurrent = 0, quadcurrent = 0,
            phasepotentialarray = [0], quadpotentialarray = [0]\<rparr>"
    by (simp add: frame22_def frame_eval)
  have b: "getallmeasures session22 = (Inl ZeroDivisionError, session22\<lparr>recframe := []\<rparr>)"
    by (simp add: getallmeasures_def getrawmeasures_def session22_def init_session_def m
        tocurrentrealvalue_def py_range_1 getitem_def bind_err_def toresistivityvalue_zero)
  show ?thesis using a b by simp
qed

section \<open>What the field name loops compute\<close>

lemma append_fields_cells:
  "cells (append_fields r templates ns i h) =
     (cells h)(r := cells h r @ map (\<lambda>n. percent_d (templates ! n) i) ns)"
  unfolding append_fields_def
proof (induction ns arbitrary: h)
  case Nil
  show ?case by simp
next
  case (Cons n ns)
  have "cells (foldl (\<lambda>h n. list_append r (percent_d (templates ! n) i) h) h (n # ns))
      = cells (foldl (\<lambda>h n. list_append r (percent_d (templates ! n) i) h)
                (list_append r (percent_d (templates ! n) i) h) ns)"
    by simp
  also have "\<dots> = (cells (list_append r (percent_d (templates ! n) i) h))
      (r := cells (list_append r (percent_d (templates ! n) i) h) r
            @ map (\<lambda>n. percent_d (templates ! n) i) ns)"
    by (rule Cons.IH)
  also have "\<dots> = (cells h)(r := cells h r @ map (\<lambda>n. percent_d (templates ! n) i) (n # ns))"
    by (simp add: list_append_def)
  finally show ?case .
qed

lemma append_fields_next_ref:
  "next_ref (append_fields r templates ns i h) = next_ref h"
  unfolding append_fields_def
  by (induction ns arbitrary: h) (simp_all add: list_append_def)

lemma fields_loop_length:
  "length (cells (foldl (fields_step r ns) h is) r)
     = length (cells h r) + 2 * length ns * length is"
  by (induction "is" arbitrary: h)
     (simp_all add: fields_step_def append_fields_cells algebra_simps)

lemma fields_loop_others:
  "q \<noteq> r \<Longrightarrow> cells (foldl (fields_step r ns) h is) q = cells h q"
  by (induction "is" arbitrary: h) (simp_all add: fields_step_def append_fields_cells)

lemma fields_lengths:
  "length POTENTIALFIELDS_LIST = 2" "length RESISTIVITYFIELDS_LIST = 2"
  by (simp_all add: POTENTIALFIELDS_LIST_def RESISTIVITYFIELDS_LIST_def)

lemma length_py_range: "length (py_range (int c)) = c"
  by (simp add: py_range_def)

lemma getallfieldnames_eval:
  "getallfieldnames s h =
     (COMMONFIELDS_LIST, foldl (fields_step COMMONFIELDS_LIST [0..<2]) h (py_range (channels_nb s)))"
proof -
  have "(\<lambda>h i. append_fields COMMONFIELDS_LIST RESISTIVITYFIELDS_LIST [0..<2] i
                 (append_fields COMMONFIELDS_LIST POTENTIALFIELDS_LIST [0..<2] i h))
        = fields_step COMMONFIELDS_LIST [0..<2]"
    by (simp add: fun_eq_iff fields_step_def)
  then show ?thesis by (simp only: getallfieldnames_def Let_def fields_lengths)
qed

lemma acquiremeasures_header_eval:
  "acquiremeasures_header datetimedisplay s h =
     (if datetimedisplay
      then (next_ref h,
            foldl (fields_step (next_ref h) [0..<2])
              (snd (alloc ([DATEFIELD] @ cells h COMMONFIELDS_LIST) h)) (py_range (channels_nb s)))
      else (COMMONFIELDS_LIST,
            foldl (fields_step COMMONFIELDS_LIST [0..<2]) h (py_range (channels_nb s))))"
proof -
  have "\<And>r. (\<lambda>h n. append_fields r RESISTIVITYFIELDS_LIST [0..<2] n
                 (append_fields r POTENTIALFIELDS_LIST [0..<2] n h))
        = fields_step r [0..<2]"
    by (simp add: fun_eq_iff fields_step_def)
  then show ?thesis
    by (simp add: acquiremeasures_header_def Let_def fields_lengths alloc_def)
qed

lemma getallfieldnames_length:
  assumes "channels_nb s = int c"
  shows "length (cells (snd (getallfieldnames s h)) COMMONFIELDS_LIST)
           = length (cells h COMMONFIELDS_LIST) + 4 * c"
  by (simp add: getallfieldnames_eval fields_loop_length assms length_py_range)

lemma acquiremeasures_header_fresh:
  assumes "channels_nb s = int c" and "next_ref h \<noteq> COMMONFIELDS_LIST"
  shows "fst (acquiremeasures_header True s h) \<noteq> COMMONFIELDS_LIST
       \<and> cells (snd (acquiremeasures_header True s h)) COMMONFIELDS_LIST
           = cells h COMMONFIELDS_LIST
       \<and> length (cells (snd (acquiremeasures_header True s h))
                   (fst (acquiremeasures_header True s h)))
           = 1 + length (cells h COMMONFIELDS_LIST) + 4 * c"
proof -
  let ?h1 = "snd (alloc ([DATEFIELD] @ cells h COMMONFIELDS_LIST) h)"
  let ?h2 = "foldl (fields_step (next_ref h) [0..<2]) ?h1 (py_range (channels_nb s))"
  have ev: "acquiremeasures_header True s h = (next_ref h, ?h2)"
    by (simp only: acquiremeasures_header_eval if_True)
  have z: "COMMONFIELDS_LIST \<noteq> next_ref h" using assms(2) by simp
  have "cells ?h2 COMMONFIELDS_LIST = cells ?h1 COMMONFIELDS_LIST"
    using z by (rule fields_loop_others)
  also have "\<dots> = cells h COMMONFIELDS_LIST"
    using z by (simp add: alloc_def)
  finally have same: "cells ?h2 COMMONFIELDS_LIST = cells h COMMONFIELDS_LIST" .
  have "length (cells ?h2 (next_ref h))
          = length (cells ?h1 (next_ref h)) + 2 * length [0..<2::nat] * length (py_range (channels_nb s))"
    by (rule fields_loop_length)
  also have "length (cells ?h1 (next_ref h)) = 1 + length (cells h COMMONFIELDS_LIST)"
    by (simp add: alloc_def)
  finally have row: "length (cells ?h2 (next_ref h)) = 1 + length (cells h COMMONFIELDS_LIST) + 4 * c"
    by (simp add: assms(1) length_py_range)
  show ?thesis using assms(2) same row by (simp add: ev)
qed

section \<open>Shared field name list\<close>

text \<open>
  C10, as stated, fails for the header row when \<^verbatim>\<open>datetimedisplay\<close> is true:
  \<^verbatim>\<open>[self.DATEFIELD] + self.COMMONFIELDS_LIST\<close> is a new list, the row grows there and
  the shared list keeps its five names.
\<close>

theorem fieldnames_shared_list_counterexample:
  "fst (acquiremeasures_header True session2 class_heap) \<noteq> COMMONFIELDS_LIST
   \<and> cells (snd (acquiremeasures_header True session2 class_heap)) COMMONFIELDS_LIST
       = cells class_heap COMMONFIELDS_LIST
   \<and> length (cells (snd (acquiremeasures_header True session2 class_heap)) COMMONFIELDS_LIST) = 5
   \<and> length (cells (snd (acquiremeasures_header True session2 class_heap))
               (fst (acquiremeasures_header True session2 class_heap))) = 14"
proof -
  let ?h1 = "snd (alloc ([DATEFIELD] @ cells class_heap COMMONFIELDS_LIST) class_heap)"
  let ?h2 = "foldl (fields_step 1 [0..<2]) ?h1 (py_range 2)"
  have n: "next_ref class_heap = 1" by (simp add: class_heap_def)
  have c: "channels_nb session2 = 2" by (simp add: session2_def)
  have ev: "acquiremeasures_header True session2 class_heap = (1, ?h2)"
    by (simp only: acquiremeasures_header_eval if_True n c)
  have z: "COMMONFIELDS_LIST \<noteq> 1" by (simp add: COMMONFIELDS_LIST_def)
  have "cells ?h2 COMMONFIELDS_LIST = cells ?h1 COMMONFIELDS_LIST"
    using z by (rule fields_loop_others)
  also have "\<dots> = cells class_heap COMMONFIELDS_LIST"
    by (simp add: alloc_def class_heap_def COMMONFIELDS_LIST_def)
  finally have same: "cells ?h2 COMMONFIELDS_LIST = cells class_heap COMMONFIELDS_LIST" .
  have five: "length (cells class_heap COMMONFIELDS_LIST) = 5"
    by (simp add: class_heap_def)
  have "length (cells ?h2 1) = length (cells ?h1 1) + 2 * length [0..<2::nat] * length (py_range 2)"
    by (rule fields_loop_length)
  also have "length (cells ?h1 1) = 6"
    by (simp add: alloc_def class_heap_def COMMONFIELDS_LIST_def)
  finally have row: "length (cells ?h2 1) = 14" by (simp add: py_range_2)
  show ?thesis using z same five row by (simp add: ev)
qed

text \<open>
  C10, amended. \<^verbatim>\<open>getallfieldnames\<close> returns the reference of the shared list
  \<^verbatim>\<open>COMMONFIELDS_LIST\<close> after appending \<open>4 c\<close> names to it, \<open>c\<close> the channel count:
  from the class's initial heap a first call leaves 5 + 4 c names in it and a second call
  5 + 8 c. The header row of \<^verbatim>\<open>acquiremeasures\<close> is the same shared list, grown by
  \<open>4 c\<close> names, when \<^verbatim>\<open>datetimedisplay\<close> is false. When it is true (and the
  reference of the shared list is in use, so that a new list gets another one) the header
  row is a new list of \<open>1 + n + 4 c\<close> names, \<open>n\<close> the length of the shared list, and
  the shared list is left unchanged.
\<close>

theorem fieldnames_shared_list:
  assumes "channels_nb s = int c"
  shows "fst (getallfieldnames s h) = COMMONFIELDS_LIST
   \<and> length (cells (snd (getallfieldnames s h)) COMMONFIELDS_LIST)
       = length (cells h COMMONFIELDS_LIST) + 4 * c
   \<and> length (cells (snd (getallfieldnames s class_heap)) COMMONFIELDS_LIST) = 5 + 4 * c
   \<and> fst (getallfieldnames s (snd (getallfieldnames s class_heap))) = COMMONFIELDS_LIST
   \<and> length (cells (snd (getallfieldnames s (snd (getallfieldnames s class_heap))))
         COMMONFIELDS_LIST) = 5 + 8 * c
   \<and> fst (acquiremeasures_header False s h) = COMMONFIELDS_LIST
   \<and> length (cells (snd (acquiremeasures_header False s h)) COMMONFIELDS_LIST)
       = length (cells h COMMONFIELDS_LIST) + 4 * c
   \<and> (next_ref h \<noteq> COMMONFIELDS_LIST \<longrightarrow>
        fst (acquiremeasures_header True s h) \<noteq> COMMONFIELDS_LIST
        \<and> cells (snd (acquiremeasures_header True s h)) COMMONFIELDS_LIST
            = cells h COMMONFIELDS_LIST
        \<and> length (cells (snd (acquiremeasures_header True s h))
                    (fst (acquiremeasures_header True s h)))
            = 1 + length (cells h COMMONFIELDS_LIST) + 4 * c)"
proof -
  have five: "length (cells class_heap COMMONFIELDS_LIST) = 5"
    by (simp add: class_heap_def)
  have g: "next_ref h \<noteq> COMMONFIELDS_LIST \<longrightarrow>
        fst (acquiremeasures_header True s h) \<noteq> COMMONFIELDS_LIST
        \<and> cells (snd (acquiremeasures_header True s h)) COMMONFIELDS_LIST
            = cells h COMMONFIELDS_LIST
        \<and> length (cells (snd (acquiremeasures_header True s h))
                    (fst (acquiremeasures_header True s h)))
            = 1 + length (cells h COMMONFIELDS_LIST) + 4 * c"
    using acquiremeasures_header_fresh [OF assms] by blast
  have a: "fst (getallfieldnames s h) = COMMONFIELDS_LIST" for h
    by (simp add: getallfieldnames_eval)
  have b: "length (cells (snd (getallfieldnames s h)) COMMONFIELDS_LIST)
       = length (cells h COMMONFIELDS_LIST) + 4 * c" for h
    using assms by (rule getallfieldnames_length)
  have c1: "length (cells (snd (getallfieldnames s class_heap)) COMMONFIELDS_LIST) = 5 + 4 * c"
    by (simp only: b five)
  have c2: "length (cells (snd (getallfieldnames s (snd (getallfieldnames s class_heap))))
         COMMONFIELDS_LIST) = 5 + 8 * c"
    by (simp add: b five)
  have d: "fst (acquiremeasures_header False s h) = COMMONFIELDS_LIST"
    by (simp add: acquiremeasures_header_eval)
  have e: "length (cells (snd (acquiremeasures_header False s h)) COMMONFIELDS_LIST)
       = length (cells h COMMONFIELDS_LIST) + 4 * c"
    by (simp add: acquiremeasures_header_eval fields_loop_length assms length_py_range)
  show ?thesis using a b c1 c2 d e g by blast
qed

theorem fieldnames_shared_list_witness:
  "channels_nb session2 = int 2
   \<and> fst (getallfieldnames session2 class_heap) = COMMONFIELDS_LIST
   \<and> length (cells (snd (getallfieldnames session2 class_heap)) COMMONFIELDS_LIST) = 13
   \<and> length (cells (snd (getallfieldnames session2 (snd (getallfieldnames session2 class_heap))))
         COMMONFIELDS_LIST) = 21
   \<and> length (cells (snd (acquiremeasures_header False session2 class_heap)) COMMONFIELDS_LIST)
       = 13
   \<and> next_ref class_heap \<noteq> COMMONFIELDS_LIST
   \<and> fst (acquiremeasures_header True session2 class_heap) \<noteq> COMMONFIELDS_LIST
   \<and> cells (snd (acquiremeasures_header True session2 class_heap)) COMMONFIELDS_LIST
       = cells class_heap COMMONFIELDS_LIST
   \<and> length (cells (snd (acquiremeasures_header True session2 class_heap))
               (fst (acquiremeasures_header True session2 class_heap))) = 14"
proof -
  have c: "channels_nb session2 = int 2" by (simp add: session2_def)
  have five: "length (cells class_heap COMMONFIELDS_LIST) = 5"
    by (simp add: class_heap_def)
  have n: "next_ref class_heap \<noteq> COMMONFIELDS_LIST"
    by (simp add: class_heap_def COMMONFIELDS_LIST_def)
  show ?thesis using fieldnames_shared_list [OF c, of class_heap] c five n by simp
qed

end
